theory Spec2Isabelle
  imports Main "HOL-Library.Sublist" "HOL-Library.Product_Lexorder"
begin

section \<open>PDFtranscript: semantic markup from positioned text lines\<close>

text \<open>
  A shallow embedding of \<^verbatim>\<open>pdftranscript/transcript.py\<close>. The document tree that
  lxml hands to the program is an arena of nodes addressed by identifiers; every
  function of the source that mutates the tree takes the arena and returns the new one.
  Python exceptions are values of \<open>py_error\<close>; a function that can raise returns
  \<open>py_error + 'a\<close>.
\<close>

subsection \<open>Python strings\<close>

text \<open>
  A Python \<^verbatim>\<open>str\<close> is modelled as a \<open>string\<close>: a list of characters with code
  points below 256. \<open>py_isspace\<close> and \<open>py_isdigit\<close> are \<^verbatim>\<open>str.isspace\<close> and
  \<^verbatim>\<open>str.isdigit\<close> on that range.
\<close>

datatype py_error =
  KeyError | IndexError | AttributeError | ValueError | AssertionError | UnboundLocalError

definition py_isspace :: "char \<Rightarrow> bool" where
  "py_isspace c =
     (c \<in> set [CHR 0x09, CHR 0x0A, CHR 0x0B, CHR 0x0C, CHR 0x0D, CHR 0x1C, CHR 0x1D,
                CHR 0x1E, CHR 0x1F, CHR 0x20, CHR 0x85, CHR 0xA0])"

definition py_isdigit :: "char \<Rightarrow> bool" where
  "py_isdigit c = (c \<in> set ''0123456789'' \<or> c \<in> set [CHR 0xB2, CHR 0xB3, CHR 0xB9])"

text \<open>\<^verbatim>\<open>s.strip()\<close>: leading and trailing whitespace removed.\<close>

definition py_strip :: "string \<Rightarrow> string" where
  "py_strip s = rev (dropWhile py_isspace (rev (dropWhile py_isspace s)))"

text \<open>\<^verbatim>\<open>s.split()\<close>: the maximal runs of non-whitespace characters.\<close>

fun split_ws :: "string \<Rightarrow> string \<Rightarrow> string list" where
  "split_ws w [] = (if w = [] then [] else [rev w])"
| "split_ws w (c # cs) =
     (if py_isspace c then (if w = [] then split_ws [] cs else rev w # split_ws [] cs)
      else split_ws (c # w) cs)"

definition py_split_ws :: "string \<Rightarrow> string list" where
  "py_split_ws s = split_ws [] s"

text \<open>
  \<^verbatim>\<open>s.split(sep)\<close> for a non-empty separator: the pieces between the occurrences of
  \<open>sep\<close>, found from the left without overlap. \<open>skip\<close> counts the characters of the
  separator still to be passed over; \<open>w\<close> is the piece read so far, reversed.
\<close>

fun split_sep :: "string \<Rightarrow> nat \<Rightarrow> string \<Rightarrow> string \<Rightarrow> string list" where
  "split_sep sep skip w [] = [rev w]"
| "split_sep sep skip w (c # cs) =
     (if 0 < skip then split_sep sep (skip - 1) w cs
      else if prefix sep (c # cs) then rev w # split_sep sep (length sep - 1) [] cs
      else split_sep sep 0 (c # w) cs)"

definition py_split :: "string \<Rightarrow> string \<Rightarrow> string list" where
  "py_split s sep = split_sep sep 0 [] s"

text \<open>\<^verbatim>\<open>sep.join(xs)\<close>.\<close>

fun py_join :: "string \<Rightarrow> string list \<Rightarrow> string" where
  "py_join sep [] = []"
| "py_join sep [x] = x"
| "py_join sep (x # y # ys) = x @ sep @ py_join sep (y # ys)"

text \<open>\<^verbatim>\<open>sub in s\<close> on strings: \<open>sub\<close> occurs in \<open>s\<close> as a contiguous piece.\<close>

fun py_in :: "string \<Rightarrow> string \<Rightarrow> bool" where
  "py_in sub [] = (sub = [])"
| "py_in sub (c # cs) = (prefix sub (c # cs) \<or> py_in sub cs)"

text \<open>\<^verbatim>\<open>xs[i]\<close> for a non-negative index: IndexError out of range.\<close>

definition py_index :: "'a list \<Rightarrow> nat \<Rightarrow> py_error + 'a" where
  "py_index xs i = (if i < length xs then Inr (xs ! i) else Inl IndexError)"

text \<open>\<^verbatim>\<open>xs.index(a)\<close>, for an \<open>a\<close> that is in \<open>xs\<close>.\<close>

fun index_of :: "'a \<Rightarrow> 'a list \<Rightarrow> nat" where
  "index_of a [] = 0"
| "index_of a (k # ks) = (if k = a then 0 else Suc (index_of a ks))"

text \<open>Running on after a step that may raise: the first exception ends the run.\<close>

definition then_do :: "py_error + 'a \<Rightarrow> ('a \<Rightarrow> py_error + 'b) \<Rightarrow> py_error + 'b" where
  "then_do r f = (case r of Inl err \<Rightarrow> Inl err | Inr v \<Rightarrow> f v)"

fun for_each :: "('a \<Rightarrow> 's \<Rightarrow> py_error + 's) \<Rightarrow> 'a list \<Rightarrow> 's \<Rightarrow> py_error + 's" where
  "for_each body [] s = Inr s"
| "for_each body (x # xs) s = then_do (body x s) (for_each body xs)"

fun collect :: "('a \<Rightarrow> py_error + 'b) \<Rightarrow> 'a list \<Rightarrow> py_error + 'b list" where
  "collect f [] = Inr []"
| "collect f (x # xs) =
     then_do (f x) (\<lambda>y. then_do (collect f xs) (\<lambda>ys. Inr (y # ys)))"

text \<open>
  A Python value is true in a condition unless it is \<^verbatim>\<open>None\<close> or empty.
\<close>

definition truthy :: "string option \<Rightarrow> bool" where
  "truthy t = (t \<noteq> None \<and> t \<noteq> Some [])"

text \<open>The decimal digits of a natural number, as \<^verbatim>\<open>str(n)\<close> writes them.\<close>

fun str_nat :: "nat \<Rightarrow> string" where
  "str_nat n =
     (if n < 10 then [''0123456789'' ! n]
      else str_nat (n div 10) @ [''0123456789'' ! (n mod 10)])"

declare str_nat.simps [simp del]

subsection \<open>The configuration constants\<close>

definition MAX_LINE_HEIGHT :: int where
  "MAX_LINE_HEIGHT = 18"

definition BR :: bool where
  "BR = True"

subsection \<open>The document tree\<close>

text \<open>
  An lxml element: its tag, its \<^verbatim>\<open>class\<close> attribute (\<open>None\<close> when the attribute is
  absent), the text before its first child, the text after its end tag (its tail), its
  children in order, and its parent.
\<close>

record node =
  n_tag :: string
  n_class :: "string option"
  n_text :: "string option"
  n_tail :: "string option"
  n_kids :: "nat list"
  n_parent :: "nat option"

text \<open>
  The arena: \<open>nodes\<close> holds the elements made so far, \<open>fresh\<close> is the identifier the
  next \<^verbatim>\<open>Element(...)\<close> gets, and \<open>root\<close> is the element the program calls
  \<^verbatim>\<open>dom\<close>.
\<close>

record dom =
  nodes :: "nat \<Rightarrow> node"
  fresh :: nat
  root :: nat

definition tag_of :: "dom \<Rightarrow> nat \<Rightarrow> string" where
  "tag_of d e = n_tag (nodes d e)"

definition class_of :: "dom \<Rightarrow> nat \<Rightarrow> string option" where
  "class_of d e = n_class (nodes d e)"

definition kids :: "dom \<Rightarrow> nat \<Rightarrow> nat list" where
  "kids d e = n_kids (nodes d e)"

definition parent :: "dom \<Rightarrow> nat \<Rightarrow> nat option" where
  "parent d e = n_parent (nodes d e)"

definition upd :: "nat \<Rightarrow> (node \<Rightarrow> node) \<Rightarrow> dom \<Rightarrow> dom" where
  "upd e f d = d\<lparr>nodes := (nodes d)(e := f (nodes d e))\<rparr>"

text \<open>\<^verbatim>\<open>e.tag = t\<close> and \<^verbatim>\<open>e.attrib['class'] = c\<close>.\<close>

definition set_tag :: "nat \<Rightarrow> string \<Rightarrow> dom \<Rightarrow> dom" where
  "set_tag e t d = upd e (\<lambda>n. n\<lparr>n_tag := t\<rparr>) d"

definition set_class :: "nat \<Rightarrow> string \<Rightarrow> dom \<Rightarrow> dom" where
  "set_class e c d = upd e (\<lambda>n. n\<lparr>n_class := Some c\<rparr>) d"

text \<open>\<^verbatim>\<open>Element(t)\<close>: a new element with no attribute, text, child or parent.\<close>

definition Element :: "string \<Rightarrow> dom \<Rightarrow> nat \<times> dom" where
  "Element t d =
     (fresh d,
      d\<lparr>nodes := (nodes d)(fresh d :=
           \<lparr>n_tag = t, n_class = None, n_text = None, n_tail = None, n_kids = [],
            n_parent = None\<rparr>),
        fresh := Suc (fresh d)\<rparr>)"

text \<open>
  Taking an element out of its parent's children. The tail text stays with the
  element, as in lxml.
\<close>

definition detach :: "nat \<Rightarrow> dom \<Rightarrow> dom" where
  "detach e d =
     (case parent d e of
        None \<Rightarrow> d
      | Some p \<Rightarrow>
          upd e (\<lambda>n. n\<lparr>n_parent := None\<rparr>)
            (upd p (\<lambda>n. n\<lparr>n_kids := removeAll e (n_kids n)\<rparr>) d))"

text \<open>
  \<^verbatim>\<open>remove(e)\<close> is \<^verbatim>\<open>parent(e).remove(e)\<close>: an element with no parent makes
  it an AttributeError on \<^verbatim>\<open>None\<close>.
\<close>

definition remove :: "nat \<Rightarrow> dom \<Rightarrow> py_error + dom" where
  "remove e d = (case parent d e of None \<Rightarrow> Inl AttributeError | Some p \<Rightarrow> Inr (detach e d))"

text \<open>
  \<^verbatim>\<open>p.append(e)\<close>: lxml moves \<open>e\<close> from where it is to the end of the children of
  \<open>p\<close>.
\<close>

definition append_to :: "nat \<Rightarrow> nat \<Rightarrow> dom \<Rightarrow> dom" where
  "append_to p e d =
     upd e (\<lambda>n. n\<lparr>n_parent := Some p\<rparr>)
       (upd p (\<lambda>n. n\<lparr>n_kids := n_kids n @ [e]\<rparr>) (detach e d))"

text \<open>\<^verbatim>\<open>p.insert(i, e)\<close>: \<open>e\<close> becomes the child at position \<open>i\<close> of \<open>p\<close>.\<close>

definition insert_at :: "nat \<Rightarrow> nat \<Rightarrow> nat \<Rightarrow> dom \<Rightarrow> dom" where
  "insert_at p i e d =
     upd e (\<lambda>n. n\<lparr>n_parent := Some p\<rparr>)
       (upd p (\<lambda>n. n\<lparr>n_kids := take i (n_kids n) @ e # drop i (n_kids n)\<rparr>) (detach e d))"

text \<open>\<^verbatim>\<open>insert_after(e, a)\<close>: insert an element just after another one.\<close>

definition insert_after :: "nat \<Rightarrow> nat \<Rightarrow> dom \<Rightarrow> py_error + dom" where
  "insert_after e a d =
     (case parent d a of
        None \<Rightarrow> Inl AttributeError
      | Some p \<Rightarrow> Inr (insert_at p (index_of a (kids d p) + 1) e d))"

text \<open>\<^verbatim>\<open>e.getnext()\<close>: the sibling that follows \<open>e\<close>, if there is one.\<close>

definition getnext :: "dom \<Rightarrow> nat \<Rightarrow> nat option" where
  "getnext d e =
     (case parent d e of
        None \<Rightarrow> None
      | Some p \<Rightarrow>
          (case drop (index_of e (kids d p) + 1) (kids d p) of [] \<Rightarrow> None | k # _ \<Rightarrow> Some k))"

text \<open>
  Walking the tree. An arena is not a tree by its type, so the walks take a bound on
  the depth; the number of elements made so far is one for every tree.
\<close>

fun iter_to :: "nat \<Rightarrow> dom \<Rightarrow> nat \<Rightarrow> nat list" where
  "iter_to 0 d e = [e]"
| "iter_to (Suc n) d e = e # concat (map (iter_to n d) (kids d e))"

text \<open>\<^verbatim>\<open>e.iter()\<close>: the element and its descendants in document order.\<close>

definition iter :: "dom \<Rightarrow> nat \<Rightarrow> nat list" where
  "iter d e = iter_to (fresh d) d e"

definition or_empty :: "string option \<Rightarrow> string" where
  "or_empty t = (case t of None \<Rightarrow> [] | Some s \<Rightarrow> s)"

fun text_to :: "nat \<Rightarrow> dom \<Rightarrow> nat \<Rightarrow> string" where
  "text_to 0 d e = or_empty (n_text (nodes d e))"
| "text_to (Suc n) d e =
     or_empty (n_text (nodes d e)) @
     concat (map (\<lambda>k. text_to n d k @ or_empty (n_tail (nodes d k))) (kids d e))"

text \<open>\<^verbatim>\<open>e.text_content()\<close>: all the text inside the element.\<close>

definition text_content :: "dom \<Rightarrow> nat \<Rightarrow> string" where
  "text_content d e = text_to (fresh d) d e"

fun ancestors_to :: "nat \<Rightarrow> dom \<Rightarrow> nat \<Rightarrow> nat list" where
  "ancestors_to 0 d e = []"
| "ancestors_to (Suc n) d e =
     (case parent d e of None \<Rightarrow> [] | Some p \<Rightarrow> p # ancestors_to n d p)"

text \<open>\<^verbatim>\<open>e.iterancestors()\<close>: the parent first.\<close>

definition iterancestors :: "dom \<Rightarrow> nat \<Rightarrow> nat list" where
  "iterancestors d e = ancestors_to (fresh d) d e"

text \<open>
  The selectors the program uses. \<^verbatim>\<open>.name\<close> selects the elements whose class
  attribute has the token \<open>name\<close>; a tag name selects by tag;
  \<^verbatim>\<open>.pc > *:first-child\<close> selects the first child of every element of class
  \<^verbatim>\<open>pc\<close>. All of them answer in document order and look at the context element
  too.
\<close>

definition has_class :: "dom \<Rightarrow> string \<Rightarrow> nat \<Rightarrow> bool" where
  "has_class d name e =
     (case class_of d e of None \<Rightarrow> False | Some c \<Rightarrow> name \<in> set (py_split_ws c))"

definition cssselect_class :: "dom \<Rightarrow> nat \<Rightarrow> string \<Rightarrow> nat list" where
  "cssselect_class d e name = filter (has_class d name) (iter d e)"

definition cssselect_tag :: "dom \<Rightarrow> nat \<Rightarrow> string \<Rightarrow> nat list" where
  "cssselect_tag d e t = filter (\<lambda>k. tag_of d k = t) (iter d e)"

definition is_first_child_of_pc :: "dom \<Rightarrow> nat \<Rightarrow> bool" where
  "is_first_child_of_pc d e =
     (case parent d e of
        None \<Rightarrow> False
      | Some p \<Rightarrow> has_class d ''pc'' p \<and> take 1 (kids d p) = [e])"

definition cssselect_pc_first :: "dom \<Rightarrow> nat \<Rightarrow> nat list" where
  "cssselect_pc_first d e = filter (is_first_child_of_pc d) (iter d e)"

subsection \<open>Reading the class attribute\<close>

text \<open>
  \<^verbatim>\<open>classn(class_, el)\<close>: cut the CSS class hex number out of the element's class
  attribute, \<^verbatim>\<open>el.attrib['class'].split(' ' + class_)[1].split()[0]\<close>.
\<close>

definition classn :: "string \<Rightarrow> dom \<Rightarrow> nat \<Rightarrow> py_error + string" where
  "classn cls d el =
     (case class_of d el of
        None \<Rightarrow> Inl KeyError
      | Some c \<Rightarrow>
          (case py_index (py_split c ('' '' @ cls)) 1 of
             Inl err \<Rightarrow> Inl err
           | Inr piece \<Rightarrow> py_index (py_split_ws piece) 0))"

text \<open>
  The pixel sizes read from the style sheet: for each kind of class (\<^verbatim>\<open>fs\<close>,
  \<^verbatim>\<open>h\<close>, \<^verbatim>\<open>x\<close>, \<^verbatim>\<open>y\<close>) the class numbers and their sizes, in the order of the
  style sheet.
\<close>

type_synonym dimensions = "string \<Rightarrow> (string \<times> int) list"

text \<open>
  \<^verbatim>\<open>get_dimension(el, dim_type)\<close> is
  \<^verbatim>\<open>dimensions[dim_type].get(classn(dim_type, el)) or 0\<close>.
\<close>

definition get_or_0 :: "(string \<times> int) list \<Rightarrow> string \<Rightarrow> int" where
  "get_or_0 sizes cssn = (case map_of sizes cssn of None \<Rightarrow> 0 | Some px \<Rightarrow> px)"

definition get_dimension :: "dimensions \<Rightarrow> dom \<Rightarrow> nat \<Rightarrow> string \<Rightarrow> py_error + int" where
  "get_dimension dims d el dim_type =
     then_do (classn dim_type d el) (\<lambda>cssn. Inr (get_or_0 (dims dim_type) cssn))"

subsection \<open>Heading levels\<close>

text \<open>
  \<^verbatim>\<open>heading_levels(dom, dimensions)\<close>: find the most common font size; the font
  sizes bigger than that are headings. \<open>fs_stats\<close> is the list of
  \<^verbatim>\<open>(count, cssn, fs)\<close>; \<^verbatim>\<open>sorted(..., reverse=True)\<close> is stable, as sorting on
  the negated count is; \<^verbatim>\<open>top_stats[0]\<close> raises IndexError on an empty list.
\<close>

definition fs_count :: "dom \<Rightarrow> string \<Rightarrow> nat" where
  "fs_count d cssn = length (cssselect_class d (root d) (''fs'' @ cssn))"

definition fs_stats :: "dom \<Rightarrow> dimensions \<Rightarrow> (nat \<times> string \<times> int) list" where
  "fs_stats d dims = map (\<lambda>(cssn, fs). (fs_count d cssn, cssn, fs)) (dims ''fs'')"

definition top_stats :: "dom \<Rightarrow> dimensions \<Rightarrow> (nat \<times> string \<times> int) list" where
  "top_stats d dims = sort_key (\<lambda>x. - int (fst x)) (fs_stats d dims)"

fun assign_levels ::
  "(nat \<times> string \<times> int) list \<Rightarrow> nat \<Rightarrow> (string \<rightharpoonup> nat) \<Rightarrow> (string \<rightharpoonup> nat)" where
  "assign_levels [] level h_levels = h_levels"
| "assign_levels ((cnt, cssn, px) # rest) level h_levels =
     assign_levels rest (level + 1) (h_levels(cssn \<mapsto> level))"

definition headings :: "dom \<Rightarrow> dimensions \<Rightarrow> int \<Rightarrow> (nat \<times> string \<times> int) list" where
  "headings d dims prevalent_fs =
     filter (\<lambda>x. prevalent_fs < snd (snd x)) (rev (fs_stats d dims))"

definition heading_levels :: "dom \<Rightarrow> dimensions \<Rightarrow> py_error + (string \<rightharpoonup> nat)" where
  "heading_levels d dims =
     (case top_stats d dims of
        [] \<Rightarrow> Inl IndexError
      | first # _ \<Rightarrow>
          (let prevalent_fs = snd (snd first)
           in Inr (assign_levels (headings d dims prevalent_fs) 1 Map.empty)))"

subsection \<open>Removing the page headers\<close>

text \<open>
  \<^verbatim>\<open>remove_headers(dom)\<close>. For the first element \<open>n1\<close> of a page, \<open>leading_of\<close>
  gives the elements of the page at the same top position and their joined text with
  all digits stripped: one entry of the list \<^verbatim>\<open>leading\<close>.
\<close>

definition leading_of :: "dom \<Rightarrow> nat \<Rightarrow> py_error + (nat list \<times> string)" where
  "leading_of d n1 =
     then_do (classn ''y'' d n1) (\<lambda>n1_y.
       (case parent d n1 of
          None \<Rightarrow> Inl AttributeError
        | Some page \<Rightarrow>
            (let topmost = cssselect_class d page (''y'' @ n1_y);
                 header_txt = py_join '' '' (map (text_content d) topmost);
                 header_txt = py_strip (filter (\<lambda>a. \<not> py_isdigit a) header_txt)
             in Inr (topmost, header_txt))))"

definition leading :: "dom \<Rightarrow> py_error + (nat list \<times> string) list" where
  "leading d = collect (leading_of d) (cssselect_pc_first d (root d))"

text \<open>The non-empty texts, \<^verbatim>\<open>[txt for topmost, txt in leading if txt]\<close>.\<close>

definition texts_of :: "(nat list \<times> string) list \<Rightarrow> string list" where
  "texts_of ld = filter (\<lambda>txt. txt \<noteq> []) (map snd ld)"

text \<open>
  The test \<^verbatim>\<open>len(texts) > 1 and all(x == texts[-1] for x in texts[1:])\<close>.
\<close>

definition headers_repeat :: "string list \<Rightarrow> bool" where
  "headers_repeat texts = (1 < length texts \<and> list_all (\<lambda>x. x = last texts) (drop 1 texts))"

definition remove_topmost :: "string \<Rightarrow> nat list \<times> string \<Rightarrow> dom \<Rightarrow> py_error + dom" where
  "remove_topmost header entry d =
     (if py_in header (snd entry) then for_each remove (fst entry) d else Inr d)"

definition remove_headers :: "dom \<Rightarrow> py_error + dom" where
  "remove_headers d =
     then_do (leading d) (\<lambda>ld.
       (let texts = texts_of ld
        in if headers_repeat texts then for_each (remove_topmost (last texts)) ld d
           else Inr d))"

subsection \<open>The coordinates of the lines\<close>

text \<open>
  \<^verbatim>\<open>int(s, 16)\<close> on the class numbers pdf2htmlEX writes: hex digits only. A sign,
  a \<^verbatim>\<open>0x\<close> prefix or underscores, which Python reads too, count as ValueError here.
\<close>

definition hex_digit :: "char \<Rightarrow> nat option" where
  "hex_digit c =
     (if c \<in> set ''0123456789'' then Some (index_of c ''0123456789'')
      else if c \<in> set ''abcdef'' then Some (10 + index_of c ''abcdef'')
      else if c \<in> set ''ABCDEF'' then Some (10 + index_of c ''ABCDEF'')
      else None)"

fun hex_value :: "nat \<Rightarrow> string \<Rightarrow> nat option" where
  "hex_value acc [] = Some acc"
| "hex_value acc (c # cs) =
     (case hex_digit c of None \<Rightarrow> None | Some v \<Rightarrow> hex_value (16 * acc + v) cs)"

definition int_hex :: "string \<Rightarrow> py_error + int" where
  "int_hex s =
     (if s = [] then Inl ValueError
      else (case hex_value 0 s of None \<Rightarrow> Inl ValueError | Some v \<Rightarrow> Inr (int v)))"

text \<open>
  One record of \<^verbatim>\<open>grid_data\<close>: the \<^verbatim>\<open>SimpleNamespace\<close> with the page, the
  coordinates, the line element, its clip box, the lines merged into it and the text.
\<close>

record ns =
  c_page :: int
  c_x :: int
  c_y :: int
  c_elem :: nat
  c_clipbox :: "nat option"
  c_lines :: "nat list"
  c_text :: "string option"

text \<open>\<^verbatim>\<open>e.attrib.get('class', '').startswith(p)\<close>.\<close>

definition class_startswith :: "dom \<Rightarrow> nat \<Rightarrow> string \<Rightarrow> bool" where
  "class_startswith d e p = prefix p (or_empty (class_of d e))"

text \<open>
  The page number of a line: that of the nearest ancestor whose class starts with
  \<^verbatim>\<open>pc\<close>, or 0.
\<close>

fun page_of :: "dom \<Rightarrow> nat list \<Rightarrow> py_error + int" where
  "page_of d [] = Inr 0"
| "page_of d (anc # ancs) =
     (if class_startswith d anc ''pc '' then then_do (classn ''pc'' d anc) int_hex
      else page_of d ancs)"

definition paper_height :: int where
  "paper_height = 850"

definition grid_entry :: "dimensions \<Rightarrow> dom \<Rightarrow> nat \<Rightarrow> py_error + ns" where
  "grid_entry dims d l =
     then_do (page_of d (iterancestors d l)) (\<lambda>page.
     then_do (case parent d l of
                None \<Rightarrow> Inl AttributeError
              | Some p \<Rightarrow> Inr (if class_startswith d p ''c '' then Some p else None)) (\<lambda>cb.
     then_do (get_dimension dims d l ''x'') (\<lambda>x.
     then_do (get_dimension dims d l ''y'') (\<lambda>bottom.
     then_do (get_dimension dims d l ''h'') (\<lambda>height.
     then_do (case cb of
                None \<Rightarrow> Inr (x, bottom + height)
              | Some c \<Rightarrow>
                  then_do (get_dimension dims d c ''x'') (\<lambda>cx.
                  then_do (get_dimension dims d c ''y'') (\<lambda>cy. Inr (cx + x, cy)))) (\<lambda>(x, y).
     Inr \<lparr>c_page = page, c_x = x, c_y = paper_height - y, c_elem = l, c_clipbox = cb,
          c_lines = [], c_text = n_text (nodes d l)\<rparr>))))))"

definition grid_data :: "dimensions \<Rightarrow> dom \<Rightarrow> py_error + ns list" where
  "grid_data dims d = collect (grid_entry dims d) (cssselect_class d (root d) ''t'')"

subsection \<open>Wrapping runs of elements\<close>

text \<open>
  \<^verbatim>\<open>wrap_set(dom, child_tag, parent_tag)\<close>: wrap unbroken sets of elements in a
  parent container. \<open>nxt\<close> is \<open>None\<close> for the source's initial \<^verbatim>\<open>0\<close> and for
  \<^verbatim>\<open>None\<close>: neither equals an element. \<open>box\<close> is \<open>None\<close> until the first
  container is made.
\<close>

fun wrap_loop ::
  "string \<Rightarrow> nat list \<Rightarrow> nat option \<Rightarrow> nat option \<Rightarrow> dom \<Rightarrow> py_error + dom" where
  "wrap_loop parent_tag [] nxt box d = Inr d"
| "wrap_loop parent_tag (e # es) nxt box d =
     then_do
       (if nxt \<noteq> Some e
        then (case Element parent_tag d of
                (b, d1) \<Rightarrow> then_do (insert_after b e d1) (\<lambda>d2. Inr (Some b, d2)))
        else Inr (box, d))
       (\<lambda>(box, d).
          (case box of
             None \<Rightarrow> Inl UnboundLocalError
           | Some b \<Rightarrow>
               (let d = append_to b e d
                in (case parent d e of
                      None \<Rightarrow> Inl AttributeError
                    | Some pe \<Rightarrow>
                        (let nxt = getnext d pe;
                             nxt = (if nxt = None then getnext d e else nxt)
                         in wrap_loop parent_tag es nxt (Some b) d)))))"

definition wrap_set :: "string \<Rightarrow> string \<Rightarrow> dom \<Rightarrow> py_error + dom" where
  "wrap_set child_tag parent_tag d =
     wrap_loop parent_tag (cssselect_tag d (root d) child_tag) None None d"

subsection \<open>Reconstructing tables\<close>

text \<open>
  The row lists and the clip-box groups are dictionaries filled with
  \<^verbatim>\<open>d.setdefault(key, []).append(v)\<close>; a new key goes to the end.
\<close>

fun setdefault_append :: "('k \<times> 'v list) list \<Rightarrow> 'k \<Rightarrow> 'v \<Rightarrow> ('k \<times> 'v list) list" where
  "setdefault_append [] key v = [(key, [v])]"
| "setdefault_append ((k, vs) # rest) key v =
     (if k = key then (k, vs @ [v]) # rest else (k, vs) # setdefault_append rest key v)"

text \<open>
  The records are Python objects that the row lists share, so a row holds references:
  the positions of its records in the sorted list. The key of a row is the page and
  the row position; the source writes the two numbers into one string, which
  determines both.
\<close>

type_synonym rows = "((int \<times> int) \<times> nat list) list"

type_synonym cboxes = "(nat option \<times> nat list) list"

definition sorted_data :: "ns list \<Rightarrow> ns list" where
  "sorted_data data = sort_key (\<lambda>c. (c_page c, c_y c, c_x c)) data"

fun build_rows :: "ns list \<Rightarrow> nat \<Rightarrow> rows \<Rightarrow> rows" where
  "build_rows [] i rows = rows"
| "build_rows (c # cs) i rows =
     build_rows cs (Suc i) (setdefault_append rows (c_page c, c_y c) i)"

fun build_cboxes :: "ns list \<Rightarrow> cboxes \<Rightarrow> cboxes" where
  "build_cboxes [] cb = cb"
| "build_cboxes (c # cs) cb = build_cboxes cs (setdefault_append cb (c_clipbox c) (c_elem c))"

text \<open>
  Collecting the cell lines with the same clip box. \<open>m_cells\<close> are the records,
  \<open>m_rows\<close> the row lists, \<open>m_merged\<close> the clip boxes seen. Two
  \<^verbatim>\<open>SimpleNamespace\<close> objects are equal when all their attributes are.
\<close>

record mstate =
  m_cells :: "ns list"
  m_rows :: rows
  m_merged :: "nat option list"

definition merge_cell :: "cboxes \<Rightarrow> int \<times> int \<Rightarrow> nat \<Rightarrow> mstate \<Rightarrow> py_error + mstate" where
  "merge_cell cboxes key cell s =
     (if c_clipbox (m_cells s ! cell) \<in> set (m_merged s)
      then Inr (s\<lparr>m_rows :=
             map (\<lambda>(k, row).
                    if k = key
                    then (k, filter (\<lambda>c. m_cells s ! c \<noteq> m_cells s ! cell) row)
                    else (k, row))
               (m_rows s)\<rparr>)
      else (case map_of cboxes (c_clipbox (m_cells s ! cell)) of
              None \<Rightarrow> Inl KeyError
            | Some ls \<Rightarrow>
                Inr (s\<lparr>m_cells := (m_cells s)[cell := (m_cells s ! cell)\<lparr>c_lines := ls\<rparr>],
                       m_merged := m_merged s @ [c_clipbox (m_cells s ! cell)]\<rparr>)))"

definition merge_row :: "cboxes \<Rightarrow> int \<times> int \<Rightarrow> mstate \<Rightarrow> py_error + mstate" where
  "merge_row cboxes key s =
     (case map_of (m_rows s) key of
        None \<Rightarrow> Inl KeyError
      | Some row \<Rightarrow> for_each (merge_cell cboxes key) row s)"

definition merge_clipboxes :: "ns list \<Rightarrow> py_error + mstate" where
  "merge_clipboxes cells =
     (let rows = build_rows cells 0 [];
          cboxes = build_cboxes cells []
      in for_each (merge_row cboxes) (map fst rows)
           \<lparr>m_cells = cells, m_rows = rows, m_merged = []\<rparr>)"

text \<open>
  Turning a row into a table row. \<open>add_lines\<close> is the loop over
  \<^verbatim>\<open>cell.lines[1:]\<close>, \<open>convert_cell\<close> the body of the loop over the cells of a
  row, \<open>convert_row\<close> the body of the loop over the rows.
\<close>

fun add_lines :: "nat \<Rightarrow> nat list \<Rightarrow> dom \<Rightarrow> dom" where
  "add_lines e [] d = d"
| "add_lines e (line # ls) d =
     (let d = set_class line [] d;
          d = (if BR then (case Element ''br'' d of (br, d) \<Rightarrow> append_to e br d) else d);
          d = append_to e line d
      in add_lines e ls d)"

definition convert_cell :: "nat \<Rightarrow> ns \<Rightarrow> dom \<Rightarrow> dom" where
  "convert_cell tr cell d =
     (let d = set_tag (c_elem cell) ''td'' d;
          d = set_class (c_elem cell) [] d;
          d = add_lines (c_elem cell) (drop 1 (c_lines cell)) d
      in append_to tr (c_elem cell) d)"

definition nonempty_cells :: "ns list \<Rightarrow> nat list \<Rightarrow> nat list" where
  "nonempty_cells cells row = filter (\<lambda>c. truthy (c_text (cells ! c))) row"

definition convert_row :: "ns list \<Rightarrow> nat list \<Rightarrow> dom \<Rightarrow> py_error + dom" where
  "convert_row cells row d =
     (if 1 < length (nonempty_cells cells row)
      then (case parent d (c_elem (cells ! (row ! 0))) of
              None \<Rightarrow> Inl AttributeError
            | Some tr \<Rightarrow>
                Inr (fold (\<lambda>c. convert_cell tr (cells ! c)) row (set_tag tr ''tr'' d)))
      else Inr d)"

text \<open>
  \<^verbatim>\<open>e.drop_tag()\<close> of lxml: the element goes, its children and its text take its
  place in the parent.
\<close>

definition getprevious :: "dom \<Rightarrow> nat \<Rightarrow> nat option" where
  "getprevious d e =
     (case parent d e of
        None \<Rightarrow> None
      | Some p \<Rightarrow>
          (case rev (take (index_of e (kids d p)) (kids d p)) of
             [] \<Rightarrow> None
           | k # _ \<Rightarrow> Some k))"

definition add_text :: "nat \<Rightarrow> string \<Rightarrow> dom \<Rightarrow> dom" where
  "add_text e t d = upd e (\<lambda>n. n\<lparr>n_text := Some (or_empty (n_text n) @ t)\<rparr>) d"

definition add_tail :: "nat \<Rightarrow> string \<Rightarrow> dom \<Rightarrow> dom" where
  "add_tail e t d = upd e (\<lambda>n. n\<lparr>n_tail := Some (or_empty (n_tail n) @ t)\<rparr>) d"

definition drop_tag :: "nat \<Rightarrow> dom \<Rightarrow> py_error + dom" where
  "drop_tag e d =
     (case parent d e of
        None \<Rightarrow> Inl AssertionError
      | Some p \<Rightarrow>
          (let previous = getprevious d e;
               self = nodes d e;
               d = (if truthy (n_text self)
                    then (case previous of
                            None \<Rightarrow> add_text p (or_empty (n_text self)) d
                          | Some pv \<Rightarrow> add_tail pv (or_empty (n_text self)) d)
                    else d);
               d = (if truthy (n_tail self)
                    then (if n_kids self \<noteq> []
                          then add_tail (last (n_kids self)) (or_empty (n_tail self)) d
                          else (case previous of
                                  None \<Rightarrow> add_text p (or_empty (n_tail self)) d
                                | Some pv \<Rightarrow> add_tail pv (or_empty (n_tail self)) d))
                    else d);
               i = index_of e (kids d p);
               d = upd p (\<lambda>n. n\<lparr>n_kids := take i (n_kids n) @ n_kids self @
                                            drop (Suc i) (n_kids n)\<rparr>) d;
               d = fold (\<lambda>k. upd k (\<lambda>n. n\<lparr>n_parent := Some p\<rparr>)) (n_kids self) d
           in Inr (upd e (\<lambda>n. n\<lparr>n_kids := [], n_parent := None\<rparr>) d)))"

text \<open>Dropping the empty spans and divs: the body of the loop over \<^verbatim>\<open>dom.iter()\<close>.\<close>

definition drop_empty :: "nat \<Rightarrow> dom \<Rightarrow> py_error + dom" where
  "drop_empty e d =
     (let text = text_content d e
      in if (tag_of d e \<in> set [''span'', ''div''] \<and> text = []) \<or> text = '' ''
         then drop_tag e d else Inr d)"

text \<open>The loop over \<^verbatim>\<open>rows.values()\<close>.\<close>

definition convert_rows :: "mstate \<Rightarrow> dom \<Rightarrow> py_error + dom" where
  "convert_rows s d = for_each (convert_row (m_cells s)) (map snd (m_rows s)) d"

definition reconstruct_tables :: "dom \<Rightarrow> ns list \<Rightarrow> py_error + dom" where
  "reconstruct_tables d data =
     then_do (merge_clipboxes (sorted_data data)) (\<lambda>s.
     then_do (convert_rows s d) (\<lambda>d.
     then_do (for_each drop_empty (iter d (root d)) d) (\<lambda>d.
       wrap_set ''tr'' ''table'' d)))"

subsection \<open>Paragraphs, headings and list items\<close>

text \<open>
  The state of the loop over the lines in \<^verbatim>\<open>semanticize\<close>. The source starts
  \<^verbatim>\<open>p_look\<close>, \<^verbatim>\<open>p_tag\<close> and \<^verbatim>\<open>box\<close> at \<^verbatim>\<open>0\<close>, which is no look, no tag
  and no element: \<open>None\<close> here. \<^verbatim>\<open>p_space\<close> starts at \<^verbatim>\<open>0\<close>, which equals
  \<^verbatim>\<open>False\<close>.
\<close>

record sstate =
  p_look :: "string option"
  p_height :: int
  p_space :: bool
  p_tag :: "string option"
  box :: "nat option"
  s_dom :: dom

definition initial_state :: "dom \<Rightarrow> sstate" where
  "initial_state d =
     \<lparr>p_look = None, p_height = 0, p_space = False, p_tag = None, box = None, s_dom = d\<rparr>"

text \<open>The look of a line: its classes but the y position and the font colour.\<close>

definition look_of :: "string \<Rightarrow> string" where
  "look_of c =
     py_join '' '' (filter (\<lambda>c. take 1 c \<noteq> ''y'' \<and> take 2 c \<noteq> ''fc'') (py_split_ws c))"

text \<open>
  \<^verbatim>\<open>append = (new_look == p_space == margin is False)\<close>: a chain of comparisons.
\<close>

definition default_append :: "bool \<Rightarrow> bool \<Rightarrow> bool \<Rightarrow> bool" where
  "default_append new_look prev_space margin =
     (new_look = prev_space \<and> prev_space = margin \<and> margin = False)"

text \<open>
  The two comparisons with the line before: \<^verbatim>\<open>new_look = p_look != look\<close> and
  \<^verbatim>\<open>margin = p_height - height > MAX_LINE_HEIGHT\<close>.
\<close>

definition new_look_of :: "sstate \<Rightarrow> string \<Rightarrow> bool" where
  "new_look_of s look = (p_look s \<noteq> Some look)"

definition margin_of :: "sstate \<Rightarrow> int \<Rightarrow> bool" where
  "margin_of s height = (MAX_LINE_HEIGHT < p_height s - height)"

text \<open>
  The tag and the decision to append, after the list item and heading rules.
\<close>

definition list_rule ::
  "string list \<Rightarrow> string \<Rightarrow> string \<Rightarrow> string option \<Rightarrow> bool \<Rightarrow> string \<times> bool" where
  "list_rule bullets txt look prev_tag app =
     (let indent = \<not> py_in ''x0'' look
      in if list_ex (\<lambda>b. prefix b txt) bullets then (''li'', False)
         else if indent \<and> prev_tag = Some ''li'' then (''li'', True)
         else (''p'', app))"

definition heading_rule :: "(string \<rightharpoonup> nat) \<Rightarrow> string \<Rightarrow> string \<times> bool \<Rightarrow> string \<times> bool" where
  "heading_rule h_levels fs ta =
     (case h_levels fs of None \<Rightarrow> ta | Some level \<Rightarrow> (''h'' @ str_nat level, False))"

text \<open>Merging a line into the box, making it the new box, or removing it.\<close>

definition place_line :: "nat \<Rightarrow> string \<Rightarrow> string \<Rightarrow> bool \<Rightarrow> sstate \<Rightarrow> py_error + sstate" where
  "place_line l txt tag app s =
     (if py_strip txt \<noteq> []
      then (if app
            then (case box s of
                    None \<Rightarrow> Inl AttributeError
                  | Some b \<Rightarrow>
                      (let d = s_dom s;
                           d = (if BR then (case Element ''br'' d of (br, d) \<Rightarrow> append_to b br d)
                                else d)
                       in Inr (s\<lparr>s_dom := append_to b l d\<rparr>)))
            else Inr (s\<lparr>box := Some l, s_dom := set_tag l tag (s_dom s)\<rparr>))
      else then_do (remove l (s_dom s)) (\<lambda>d. Inr (s\<lparr>s_dom := d\<rparr>)))"

text \<open>
  What the loop decides for a line from the state, the look, the height, the text and
  the font-size class of the line: the tag, and whether the line goes into the box.
\<close>

definition decide ::
  "(string \<rightharpoonup> nat) \<Rightarrow> string list \<Rightarrow> sstate \<Rightarrow> string \<Rightarrow> int \<Rightarrow> string \<Rightarrow> string \<Rightarrow>
   string \<times> bool" where
  "decide h_levels bullets s look height txt fs =
     (let new_look = new_look_of s look;
          margin = margin_of s height;
          app = default_append new_look (p_space s) margin
      in heading_rule h_levels fs (list_rule bullets txt look (p_tag s) app))"

text \<open>
  The body of the loop: one line. The height and the font-size class are read before
  the tree is touched; either can raise.
\<close>

definition line_step ::
  "dimensions \<Rightarrow> (string \<rightharpoonup> nat) \<Rightarrow> string list \<Rightarrow> nat \<Rightarrow> sstate \<Rightarrow> py_error + sstate" where
  "line_step dims h_levels bullets l s =
     (case class_of (s_dom s) l of
        None \<Rightarrow> Inl KeyError
      | Some c \<Rightarrow>
          then_do (get_dimension dims (s_dom s) l ''h'') (\<lambda>height.
          then_do (classn ''fs'' (s_dom s) l) (\<lambda>fs.
            (let look = look_of c;
                 txt = text_content (s_dom s) l;
                 space = (py_strip txt = []);
                 ta = decide h_levels bullets s look height txt fs
             in then_do (place_line l txt (fst ta) (snd ta) s) (\<lambda>s.
                  Inr (s\<lparr>p_space := space, p_height := height, p_look := Some look,
                         p_tag := Some (fst ta)\<rparr>))))))"

definition line_loop ::
  "dimensions \<Rightarrow> (string \<rightharpoonup> nat) \<Rightarrow> string list \<Rightarrow> nat list \<Rightarrow> sstate \<Rightarrow> py_error + sstate" where
  "line_loop dims h_levels bullets ls s = for_each (line_step dims h_levels bullets) ls s"

text \<open>
  \<^verbatim>\<open>semanticize\<close> between reading the document and writing the result, with every
  switch of the configuration on: headers, script holders, tables, heading levels, the
  lines, the lists.
\<close>

definition semanticize :: "dimensions \<Rightarrow> string list \<Rightarrow> dom \<Rightarrow> py_error + dom" where
  "semanticize dims bullets d =
     then_do (remove_headers d) (\<lambda>d.
     then_do (for_each remove (cssselect_class d (root d) ''j'') d) (\<lambda>d.
     then_do (grid_data dims d) (\<lambda>table_data.
     then_do (reconstruct_tables d table_data) (\<lambda>d.
     then_do (heading_levels d dims) (\<lambda>h_levels.
     then_do (line_loop dims h_levels bullets (cssselect_class d (root d) ''t'')
                (initial_state d)) (\<lambda>s.
       wrap_set ''li'' ''ul'' (s_dom s)))))))"

subsection \<open>Documents written as trees\<close>

text \<open>
  For the worked examples a document is written as a tree (tag, class, text, children,
  tail); \<open>load\<close> puts it into an arena, numbering the elements in document order
  from 0, and \<open>dump\<close> reads an arena back as a tree.
\<close>

datatype html = El string "string option" "string option" "html list" "string option"

fun load_at :: "nat option \<Rightarrow> html \<Rightarrow> dom \<Rightarrow> dom" where
  "load_at par (El t c tx ks ta) d =
     (let e = fresh d;
          d = d\<lparr>nodes := (nodes d)(e :=
                 \<lparr>n_tag = t, n_class = c, n_text = tx, n_tail = ta, n_kids = [],
                  n_parent = par\<rparr>),
               fresh := Suc e\<rparr>;
          d = (case par of
                 None \<Rightarrow> d
               | Some p \<Rightarrow> upd p (\<lambda>n. n\<lparr>n_kids := n_kids n @ [e]\<rparr>) d)
      in fold (load_at (Some e)) ks d)"

definition empty_node :: node where
  "empty_node =
     \<lparr>n_tag = [], n_class = None, n_text = None, n_tail = None, n_kids = [],
      n_parent = None\<rparr>"

definition load :: "html \<Rightarrow> dom" where
  "load h = load_at None h \<lparr>nodes = (\<lambda>_. empty_node), fresh = 0, root = 0\<rparr>"

fun dump_to :: "nat \<Rightarrow> dom \<Rightarrow> nat \<Rightarrow> html" where
  "dump_to 0 d e = El (tag_of d e) (class_of d e) (n_text (nodes d e)) [] (n_tail (nodes d e))"
| "dump_to (Suc n) d e =
     El (tag_of d e) (class_of d e) (n_text (nodes d e)) (map (dump_to n d) (kids d e))
       (n_tail (nodes d e))"

definition dump :: "dom \<Rightarrow> html" where
  "dump d = dump_to (fresh d) d (root d)"

text \<open>A line of text, a clip box around elements, a page with its number.\<close>

definition line :: "string \<Rightarrow> string \<Rightarrow> html" where
  "line c t = El ''div'' (Some c) (Some t) [] None"

definition clip :: "string \<Rightarrow> html list \<Rightarrow> html" where
  "clip c ls = El ''div'' (Some c) None ls None"

definition page :: "string \<Rightarrow> html list \<Rightarrow> html" where
  "page no ls =
     El ''div'' (Some ''pf w0 h0'') None
       [El ''div'' (Some (''pc pc'' @ no @ '' w0 h0'')) None ls None] None"

definition document :: "html list \<Rightarrow> html" where
  "document pages = El ''div'' None None pages None"

text \<open>A style sheet for the examples.\<close>

definition sizes :: dimensions where
  "sizes k =
     (if k = ''x'' then [(''0'', 0), (''1'', 50), (''2'', 300)]
      else if k = ''y'' then [(''0'', 0), (''1'', 700), (''2'', 650), (''3'', 600)]
      else if k = ''h'' then [(''0'', 0), (''1'', 12), (''2'', 40)]
      else if k = ''fs'' then [(''0'', 10), (''1'', 14), (''2'', 18), (''3'', 8)]
      else [])"

text \<open>Five lines: three in the body size, one in each of two bigger sizes.\<close>

definition doc_headings :: html where
  "doc_headings =
     document
       [page ''1''
          [line ''t m0 x1 h2 y1 ff1 fs2 fc0'' ''Title'',
           line ''t m0 x1 h1 y2 ff1 fs1 fc0'' ''Section'',
           line ''t m0 x1 h1 y3 ff1 fs0 fc0'' ''Body one'',
           line ''t m0 x1 h1 y3 ff1 fs0 fc0'' ''Body two'',
           line ''t m0 x1 h1 y3 ff1 fs0 fc0'' ''Body three'']]"

text \<open>
  Four lines, each in a clip box of its own; the clip boxes stand in two rows and two
  columns.
\<close>

definition doc_grid_clip :: html where
  "doc_grid_clip =
     document
       [page ''1''
          [clip ''c x1 y1 w1 h1'' [line ''t m0 x0 h1 y0 ff1 fs0 fc0'' ''A''],
           clip ''c x2 y1 w1 h1'' [line ''t m0 x0 h1 y0 ff1 fs0 fc0'' ''B''],
           clip ''c x1 y2 w1 h1'' [line ''t m0 x0 h1 y0 ff1 fs0 fc0'' ''C''],
           clip ''c x2 y2 w1 h1'' [line ''t m0 x0 h1 y0 ff1 fs0 fc0'' ''D'']]]"

text \<open>
  Lines for the loop over the lines: two of one look, a blank one of another look and
  height, one more of the first look, and one whose height class the style sheet does
  not hold.
\<close>

definition doc_lines :: html where
  "doc_lines =
     document
       [page ''1''
          [line ''t m0 x1 h1 y1 ff1 fs0 fc0'' ''First line'',
           line ''t m0 x1 h1 y2 ff1 fs0 fc1'' ''continues here'',
           line ''t m0 x2 h2 y3 ff2 fs1 fc0'' ''  '',
           line ''t m0 x1 h1 y3 ff1 fs0 fc0'' ''After the gap'',
           line ''t m0 x1 h9 y3 ff1 fs0 fc0'' ''Unknown height'']]"

text \<open>A title of two lines in the biggest font, and three lines of body text.\<close>

definition doc_title :: html where
  "doc_title =
     document
       [page ''1''
          [line ''t m0 x1 h2 y1 ff1 fs2 fc0'' ''Annual'',
           line ''t m0 x1 h2 y2 ff1 fs2 fc0'' ''Report'',
           line ''t m0 x1 h1 y3 ff1 fs0 fc0'' ''Body one'',
           line ''t m0 x1 h1 y3 ff1 fs0 fc0'' ''Body two'',
           line ''t m0 x1 h1 y3 ff1 fs0 fc0'' ''Body three'']]"

text \<open>A line with no height class.\<close>

definition doc_no_height :: html where
  "doc_no_height = document [page ''1'' [line ''t m0 x1 y1 ff1 fs0 fc0'' ''No height class'']]"

section \<open>Properties\<close>

subsection \<open>Heading levels\<close>

lemma sort_key_hd_min:
  assumes "xs \<noteq> []"
  shows "hd (sort_key f xs) \<in> set xs \<and> (\<forall>x \<in> set xs. f (hd (sort_key f xs)) \<le> f x)"
proof -
  have ne: "sort_key f xs \<noteq> []" using assms by (metis length_0_conv length_sort)
  then obtain y ys where ys: "sort_key f xs = y # ys" by (cases "sort_key f xs") auto
  have "sorted (map f (y # ys))" using sorted_sort_key[of f xs] ys by simp
  then have "\<forall>x \<in> set (y # ys). f y \<le> f x" by auto
  moreover have "set (y # ys) = set xs" using ys set_sort[of f xs] by simp
  ultimately show ?thesis using ys by auto
qed

lemma assign_levels_other:
  "cssn \<notin> set (map (\<lambda>x. fst (snd x)) hs) \<Longrightarrow> assign_levels hs level h cssn = h cssn"
  by (induction hs level h rule: assign_levels.induct) auto

lemma assign_levels_nth:
  "distinct (map (\<lambda>x. fst (snd x)) hs) \<Longrightarrow> i < length hs \<Longrightarrow>
   assign_levels hs level h (fst (snd (hs ! i))) = Some (level + i)"
proof (induction hs arbitrary: i level h)
  case Nil
  then show ?case by simp
next
  case (Cons x rest)
  obtain cnt cssn px where x: "x = (cnt, cssn, px)" by (cases x) auto
  show ?case
  proof (cases i)
    case 0
    then show ?thesis using Cons.prems x by (simp add: assign_levels_other)
  next
    case (Suc j)
    have "assign_levels rest (level + 1) (h(cssn \<mapsto> level)) (fst (snd (rest ! j))) =
          Some (level + 1 + j)"
      using Cons.prems Suc by (intro Cons.IH) auto
    then show ?thesis using Suc x by simp
  qed
qed

lemma assign_levels_dom:
  "dom (assign_levels hs level h) = dom h \<union> set (map (\<lambda>x. fst (snd x)) hs)"
proof (induction hs arbitrary: level h)
  case Nil
  then show ?case by simp
next
  case (Cons x rest)
  obtain cnt cssn px where x: "x = (cnt, cssn, px)" by (cases x) auto
  have "dom (assign_levels rest (level + 1) (h(cssn \<mapsto> level))) =
        dom (h(cssn \<mapsto> level)) \<union> set (map (\<lambda>x. fst (snd x)) rest)"
    by (rule Cons.IH)
  then show ?case using x by auto
qed

lemma in_fs_stats:
  "x \<in> set (fs_stats d dims) \<longleftrightarrow>
   (\<exists>c px. (c, px) \<in> set (dims ''fs'') \<and> x = (fs_count d c, c, px))"
proof -
  define D where "D = dims ''fs''"
  have "x \<in> set (map (\<lambda>(cssn, fs). (fs_count d cssn, cssn, fs)) D) \<longleftrightarrow>
        (\<exists>c px. (c, px) \<in> set D \<and> x = (fs_count d c, c, px))"
    by auto
  then show ?thesis by (simp add: fs_stats_def D_def)
qed

lemma headings_eq:
  "headings d dims p =
   map (\<lambda>(cssn, fs). (fs_count d cssn, cssn, fs))
     (filter (\<lambda>(c, px). p < px) (rev (dims ''fs'')))"
  by (simp add: headings_def fs_stats_def rev_map filter_map comp_def case_prod_unfold)

lemma levels_core:
  fixes D :: "(string \<times> int) list" and g :: "string \<Rightarrow> nat" and p :: int
  assumes dist: "distinct (map fst D)"
  defines "q \<equiv> filter (\<lambda>(c, px). p < px) (rev D)"
  defines "h \<equiv> assign_levels (map (\<lambda>(c, px). (g c, c, px)) q) 1 Map.empty"
  shows "dom h = fst ` set q"
    and "\<forall>i < length q. h (fst (q ! i)) = Some (i + 1)"
    and "\<forall>cssn level. h cssn = Some level \<longrightarrow> (\<exists>px. (cssn, px) \<in> set D \<and> p < px)"
    and "(\<forall>(c, px) \<in> set D. px \<le> p) \<longrightarrow> h = Map.empty"
proof -
  let ?hs = "map (\<lambda>(c, px). (g c, c, px)) q"
  have keys: "map (\<lambda>x. fst (snd x)) ?hs = map fst q"
    by (simp add: comp_def case_prod_unfold)
  have dq: "distinct (map fst q)"
    using dist by (simp add: q_def distinct_map_filter rev_map[symmetric])
  have "set (map (\<lambda>x. fst (snd x)) ?hs) = fst ` set q"
    by (simp only: keys list.set_map)
  then show domh: "dom h = fst ` set q"
    by (simp only: h_def assign_levels_dom dom_empty sup_bot.left_neutral)
  show "\<forall>i < length q. h (fst (q ! i)) = Some (i + 1)"
  proof (intro allI impI)
    fix i assume i: "i < length q"
    have d: "distinct (map (\<lambda>x. fst (snd x)) ?hs)" using dq by (simp only: keys)
    have l: "i < length ?hs" using i by simp
    have "h (fst (snd (?hs ! i))) = Some (1 + i)"
      unfolding h_def by (rule assign_levels_nth[OF d l])
    moreover have "fst (snd (?hs ! i)) = fst (q ! i)"
      using i by (simp add: case_prod_unfold)
    ultimately show "h (fst (q ! i)) = Some (i + 1)" by simp
  qed
  show "\<forall>cssn level. h cssn = Some level \<longrightarrow> (\<exists>px. (cssn, px) \<in> set D \<and> p < px)"
  proof (intro allI impI)
    fix cssn level assume "h cssn = Some level"
    then have "cssn \<in> fst ` set q" using domh by blast
    then show "\<exists>px. (cssn, px) \<in> set D \<and> p < px" by (auto simp: q_def)
  qed
  show "(\<forall>(c, px) \<in> set D. px \<le> p) \<longrightarrow> h = Map.empty"
  proof
    assume a: "\<forall>(c, px) \<in> set D. px \<le> p"
    have "q = []" using a by (auto simp: q_def filter_empty_conv)
    then have "dom h = {}" using domh by simp
    then show "h = Map.empty" by simp
  qed
qed

text \<open>
  Claim C5. When the style sheet has a font-size class at all (and names each once, as
  a dictionary does), \<open>heading_levels\<close> returns a map \<open>h\<close>, and there is a class
  \<open>prevalent\<close> of size \<open>p\<close> that no class outnumbers, such that: a class has a level
  only if its size is strictly greater than \<open>p\<close>; the classes of size greater than
  \<open>p\<close>, taken in the reversed order of the style sheet, have the levels 1, 2, 3, ...
  and no other class has one; and when no class is bigger than \<open>p\<close> the map is empty.
\<close>

theorem heading_levels_above_prevalent:
  assumes ne: "dims ''fs'' \<noteq> []" and dist: "distinct (map fst (dims ''fs''))"
  shows "\<exists>h prevalent p.
      heading_levels d dims = Inr h \<and>
      (prevalent, p) \<in> set (dims ''fs'') \<and>
      (\<forall>(c, px) \<in> set (dims ''fs''). fs_count d c \<le> fs_count d prevalent) \<and>
      (\<forall>cssn level. h cssn = Some level \<longrightarrow>
         (\<exists>px. (cssn, px) \<in> set (dims ''fs'') \<and> p < px)) \<and>
      (let q = filter (\<lambda>(c, px). p < px) (rev (dims ''fs''))
       in dom h = fst ` set q \<and> (\<forall>i < length q. h (fst (q ! i)) = Some (i + 1))) \<and>
      ((\<forall>(c, px) \<in> set (dims ''fs''). px \<le> p) \<longrightarrow> h = Map.empty)"
proof -
  let ?st = "fs_stats d dims"
  let ?f = "\<lambda>x::nat \<times> string \<times> int. - int (fst x)"
  have st_ne: "?st \<noteq> []" using ne by (simp add: fs_stats_def)
  have "length (top_stats d dims) = length ?st" by (simp add: top_stats_def)
  then have "top_stats d dims \<noteq> []" using st_ne by auto
  then obtain top rest where top: "top_stats d dims = top # rest"
    by (cases "top_stats d dims") auto
  have hd: "hd (sort_key ?f ?st) = top" using top by (simp add: top_stats_def)
  have top_in: "top \<in> set ?st" and top_min: "\<forall>x \<in> set ?st. ?f top \<le> ?f x"
    using sort_key_hd_min[OF st_ne, of ?f] hd by auto
  obtain cnt prevalent p where t: "top = (cnt, prevalent, p)" by (cases top) auto
  have in_dims: "(prevalent, p) \<in> set (dims ''fs'')" and cnt: "cnt = fs_count d prevalent"
    using top_in t by (simp_all add: in_fs_stats)
  have maxc: "\<forall>(c, px) \<in> set (dims ''fs''). fs_count d c \<le> fs_count d prevalent"
  proof (clarify)
    fix c px assume "(c, px) \<in> set (dims ''fs'')"
    then have "(fs_count d c, c, px) \<in> set ?st" by (simp add: in_fs_stats)
    then have "?f top \<le> ?f (fs_count d c, c, px)" using top_min by blast
    then show "fs_count d c \<le> fs_count d prevalent" using t cnt by simp
  qed
  let ?h = "assign_levels (headings d dims p) 1 Map.empty"
  have res: "heading_levels d dims = Inr ?h"
    using top t by (simp add: heading_levels_def)
  note core = levels_core[OF dist, where p = p and g = "fs_count d", folded headings_eq]
  show ?thesis
    apply (rule exI[of _ ?h], rule exI[of _ prevalent], rule exI[of _ p])
    apply (simp only: Let_def)
    apply (intro conjI)
         apply (rule res)
        apply (rule in_dims)
       apply (rule maxc)
      apply (rule core(3))
     apply (rule core(1))
    apply (rule core(2))
    apply (rule core(4))
    done
qed

text \<open>
  The theorem at the style sheet \<open>sizes\<close> and the document \<open>doc_headings\<close>: the body
  size is class 0 (10 px, three lines), and the two bigger classes get their levels in
  the reversed order of the style sheet, class 2 before class 1.
\<close>

theorem heading_levels_above_prevalent_witness:
  "sizes ''fs'' \<noteq> [] \<and> distinct (map fst (sizes ''fs'')) \<and>
   (\<exists>h prevalent p.
      heading_levels (load doc_headings) sizes = Inr h \<and>
      (prevalent, p) \<in> set (sizes ''fs'') \<and>
      (\<forall>(c, px) \<in> set (sizes ''fs'').
         fs_count (load doc_headings) c \<le> fs_count (load doc_headings) prevalent) \<and>
      (\<forall>cssn level. h cssn = Some level \<longrightarrow>
         (\<exists>px. (cssn, px) \<in> set (sizes ''fs'') \<and> p < px)) \<and>
      (let q = filter (\<lambda>(c, px). p < px) (rev (sizes ''fs''))
       in dom h = fst ` set q \<and> (\<forall>i < length q. h (fst (q ! i)) = Some (i + 1))) \<and>
      ((\<forall>(c, px) \<in> set (sizes ''fs''). px \<le> p) \<longrightarrow> h = Map.empty)) \<and>
   (case heading_levels (load doc_headings) sizes of
      Inl err \<Rightarrow> False
    | Inr h \<Rightarrow> h ''2'' = Some 1 \<and> h ''1'' = Some 2 \<and> h ''0'' = None \<and> h ''3'' = None)"
proof -
  have a: "sizes ''fs'' \<noteq> []" by (simp add: sizes_def)
  have b: "distinct (map fst (sizes ''fs''))" by (simp add: sizes_def)
  have c: "case heading_levels (load doc_headings) sizes of
      Inl err \<Rightarrow> False
    | Inr h \<Rightarrow> h ''2'' = Some 1 \<and> h ''1'' = Some 2 \<and> h ''0'' = None \<and> h ''3'' = None"
    by code_simp
  show ?thesis
    using a b c heading_levels_above_prevalent[of sizes "load doc_headings", OF a b] by blast
qed

subsection \<open>The coordinates of a line\<close>

lemma then_do_Inr:
  "then_do r f = Inr v \<longleftrightarrow> (\<exists>a. r = Inr a \<and> f a = Inr v)"
  by (cases r) (simp_all add: then_do_def)

lemma get_dimension_Inr:
  "get_dimension dims d e k = Inr v \<longleftrightarrow>
   (\<exists>n. classn k d e = Inr n \<and> v = get_or_0 (dims k) n)"
  by (auto simp: get_dimension_def then_do_Inr)

text \<open>
  Claim C6, as amended. \<open>grid_entry\<close> returns a record for a line exactly when the
  page number, the parent and the x, y and h class numbers of the line can be read, and
  those of the clip box when the parent is one. Then x is the left value of the line,
  plus the left value of the clip box when there is one; y is 850 minus (bottom +
  height) for a line with no clip box, and 850 minus the bottom value of the clip box
  for a clipped line: the height of the line is not added there. A class number that
  the table does not hold counts as 0.
\<close>

theorem grid_entry_coordinates:
  "(grid_entry dims d l = Inr r \<longleftrightarrow>
   (\<exists>pg p xn yn hn.
      page_of d (iterancestors d l) = Inr pg \<and> parent d l = Some p \<and>
      classn ''x'' d l = Inr xn \<and> classn ''y'' d l = Inr yn \<and> classn ''h'' d l = Inr hn \<and>
      (if class_startswith d p ''c ''
       then (\<exists>cxn cyn.
               classn ''x'' d p = Inr cxn \<and> classn ''y'' d p = Inr cyn \<and>
               r = \<lparr>c_page = pg,
                    c_x = get_or_0 (dims ''x'') cxn + get_or_0 (dims ''x'') xn,
                    c_y = 850 - get_or_0 (dims ''y'') cyn,
                    c_elem = l, c_clipbox = Some p, c_lines = [],
                    c_text = n_text (nodes d l)\<rparr>)
       else r = \<lparr>c_page = pg,
                 c_x = get_or_0 (dims ''x'') xn,
                 c_y = 850 - (get_or_0 (dims ''y'') yn + get_or_0 (dims ''h'') hn),
                 c_elem = l, c_clipbox = None, c_lines = [],
                 c_text = n_text (nodes d l)\<rparr>))) \<and>
   (\<forall>k n. map_of (dims k) n = None \<longrightarrow> get_or_0 (dims k) n = 0)"
proof -
  have zero: "\<forall>k n. map_of (dims k) n = None \<longrightarrow> get_or_0 (dims k) n = 0"
    by (simp add: get_or_0_def)
  have "grid_entry dims d l = Inr r \<longleftrightarrow>
   (\<exists>pg p xn yn hn.
      page_of d (iterancestors d l) = Inr pg \<and> parent d l = Some p \<and>
      classn ''x'' d l = Inr xn \<and> classn ''y'' d l = Inr yn \<and> classn ''h'' d l = Inr hn \<and>
      (if class_startswith d p ''c ''
       then (\<exists>cxn cyn.
               classn ''x'' d p = Inr cxn \<and> classn ''y'' d p = Inr cyn \<and>
               r = \<lparr>c_page = pg,
                    c_x = get_or_0 (dims ''x'') cxn + get_or_0 (dims ''x'') xn,
                    c_y = 850 - get_or_0 (dims ''y'') cyn,
                    c_elem = l, c_clipbox = Some p, c_lines = [],
                    c_text = n_text (nodes d l)\<rparr>)
       else r = \<lparr>c_page = pg,
                 c_x = get_or_0 (dims ''x'') xn,
                 c_y = 850 - (get_or_0 (dims ''y'') yn + get_or_0 (dims ''h'') hn),
                 c_elem = l, c_clipbox = None, c_lines = [],
                 c_text = n_text (nodes d l)\<rparr>))"
  proof -
  define X where "X = get_dimension dims d l ''x''"
  define Y where "Y = get_dimension dims d l ''y''"
  define H where "H = get_dimension dims d l ''h''"
  define PG where "PG = page_of d (iterancestors d l)"
  show ?thesis
  proof (cases "parent d l")
    case None
    then show ?thesis
      by (simp add: grid_entry_def then_do_Inr)
  next
    case (Some p)
    define clipped where "clipped = class_startswith d p ''c ''"
    have "grid_entry dims d l = Inr r \<longleftrightarrow>
       (\<exists>pg x b h. PG = Inr pg \<and> X = Inr x \<and> Y = Inr b \<and> H = Inr h \<and>
          (if clipped
           then (\<exists>cx cy. get_dimension dims d p ''x'' = Inr cx \<and>
                   get_dimension dims d p ''y'' = Inr cy \<and>
                   r = \<lparr>c_page = pg, c_x = cx + x, c_y = 850 - cy, c_elem = l,
                        c_clipbox = Some p, c_lines = [], c_text = n_text (nodes d l)\<rparr>)
           else r = \<lparr>c_page = pg, c_x = x, c_y = 850 - (b + h), c_elem = l,
                     c_clipbox = None, c_lines = [], c_text = n_text (nodes d l)\<rparr>))"
      unfolding grid_entry_def Some X_def[symmetric] Y_def[symmetric] H_def[symmetric]
        PG_def[symmetric] option.case clipped_def[symmetric] paper_height_def
      by (cases clipped) (auto simp: then_do_Inr)
    then show ?thesis
      unfolding X_def Y_def H_def PG_def clipped_def get_dimension_Inr Some
      by (cases "class_startswith d p ''c ''") (simp; blast)+
  qed
  qed
  then show ?thesis using zero by blast
qed

text \<open>
  Claim C6 as stated fails: the first line of \<open>doc_grid_clip\<close> (element 4) is 12 px
  high and stands in a clip box (element 3) with bottom value 700. Its y is 150, which
  is 850 - 700 and not 850 - (700 + 12).
\<close>

theorem grid_entry_clipped_drops_height:
  "parent (load doc_grid_clip) 4 = Some 3 \<and>
   class_startswith (load doc_grid_clip) 3 ''c '' \<and>
   get_dimension sizes (load doc_grid_clip) 3 ''y'' = Inr 700 \<and>
   get_dimension sizes (load doc_grid_clip) 4 ''h'' = Inr 12 \<and>
   grid_entry sizes (load doc_grid_clip) 4 =
     Inr \<lparr>c_page = 1, c_x = 50, c_y = 150, c_elem = 4, c_clipbox = Some 3, c_lines = [],
          c_text = Some ''A''\<rparr> \<and>
   (150 :: int) \<noteq> 850 - (700 + 12)"
  by code_simp

text \<open>The theorem at that line, and at a class number the table does not hold.\<close>

theorem grid_entry_coordinates_witness:
  "grid_entry sizes (load doc_grid_clip) 4 =
     Inr \<lparr>c_page = 1, c_x = 50, c_y = 150, c_elem = 4, c_clipbox = Some 3, c_lines = [],
          c_text = Some ''A''\<rparr> \<and>
   (\<exists>pg p xn yn hn.
      page_of (load doc_grid_clip) (iterancestors (load doc_grid_clip) 4) = Inr pg \<and>
      parent (load doc_grid_clip) 4 = Some p \<and>
      classn ''x'' (load doc_grid_clip) 4 = Inr xn \<and>
      classn ''y'' (load doc_grid_clip) 4 = Inr yn \<and>
      classn ''h'' (load doc_grid_clip) 4 = Inr hn \<and>
      class_startswith (load doc_grid_clip) p ''c '' \<and>
      (\<exists>cxn cyn.
         classn ''x'' (load doc_grid_clip) p = Inr cxn \<and>
         classn ''y'' (load doc_grid_clip) p = Inr cyn \<and>
         (50 :: int) = get_or_0 (sizes ''x'') cxn + get_or_0 (sizes ''x'') xn \<and>
         (150 :: int) = 850 - get_or_0 (sizes ''y'') cyn)) \<and>
   map_of (sizes ''h'') ''9'' = None \<and> get_or_0 (sizes ''h'') ''9'' = 0"
proof -
  let ?r = "\<lparr>c_page = 1, c_x = 50, c_y = 150, c_elem = 4, c_clipbox = Some 3, c_lines = [],
          c_text = Some ''A''\<rparr>"
  have a: "grid_entry sizes (load doc_grid_clip) 4 = Inr ?r" by code_simp
  have b: "map_of (sizes ''h'') ''9'' = None" by code_simp
  have c: "class_startswith (load doc_grid_clip) 3 ''c ''" by code_simp
  have p: "parent (load doc_grid_clip) 4 = Some 3" by code_simp
  note t = grid_entry_coordinates[of sizes "load doc_grid_clip" 4 ?r]
  from t a obtain pg p xn yn hn where
    f: "page_of (load doc_grid_clip) (iterancestors (load doc_grid_clip) 4) = Inr pg"
       "parent (load doc_grid_clip) 4 = Some p"
       "classn ''x'' (load doc_grid_clip) 4 = Inr xn"
       "classn ''y'' (load doc_grid_clip) 4 = Inr yn"
       "classn ''h'' (load doc_grid_clip) 4 = Inr hn"
       and g: "(if class_startswith (load doc_grid_clip) p ''c ''
       then (\<exists>cxn cyn.
               classn ''x'' (load doc_grid_clip) p = Inr cxn \<and> classn ''y'' (load doc_grid_clip) p = Inr cyn \<and>
               ?r = \<lparr>c_page = pg,
                    c_x = get_or_0 (sizes ''x'') cxn + get_or_0 (sizes ''x'') xn,
                    c_y = 850 - get_or_0 (sizes ''y'') cyn,
                    c_elem = 4, c_clipbox = Some p, c_lines = [],
                    c_text = n_text (nodes (load doc_grid_clip) 4)\<rparr>)
       else ?r = \<lparr>c_page = pg,
                 c_x = get_or_0 (sizes ''x'') xn,
                 c_y = 850 - (get_or_0 (sizes ''y'') yn + get_or_0 (sizes ''h'') hn),
                 c_elem = 4, c_clipbox = None, c_lines = [],
                 c_text = n_text (nodes (load doc_grid_clip) 4)\<rparr>)"
    by blast
  have p3: "p = 3" using f(2) p by simp
  have cl: "class_startswith (load doc_grid_clip) p ''c ''" using c p3 by simp
  from g cl obtain cxn cyn where
    h: "classn ''x'' (load doc_grid_clip) p = Inr cxn" "classn ''y'' (load doc_grid_clip) p = Inr cyn"
       "(50 :: int) = get_or_0 (sizes ''x'') cxn + get_or_0 (sizes ''x'') xn"
       "(150 :: int) = 850 - get_or_0 (sizes ''y'') cyn"
    by auto
  have z: "get_or_0 (sizes ''h'') ''9'' = 0" using t b by blast
  show ?thesis using a f cl h b z by blast
qed

subsection \<open>The tree operations\<close>

lemma upd_simps [simp]:
  "nodes (upd e f d) x = (if x = e then f (nodes d e) else nodes d x)"
  "fresh (upd e f d) = fresh d"
  "root (upd e f d) = root d"
  by (simp_all add: upd_def)

lemma Element_simps:
  "fst (Element t d) = fresh d"
  "fresh (snd (Element t d)) = Suc (fresh d)"
  "root (snd (Element t d)) = root d"
  "x \<noteq> fresh d \<Longrightarrow> nodes (snd (Element t d)) x = nodes d x"
  "nodes (snd (Element t d)) (fresh d) =
     \<lparr>n_tag = t, n_class = None, n_text = None, n_tail = None, n_kids = [], n_parent = None\<rparr>"
  by (simp_all add: Element_def)

lemma detach_simps:
  "fresh (detach e d) = fresh d"
  "root (detach e d) = root d"
  "tag_of (detach e d) x = tag_of d x"
  "class_of (detach e d) x = class_of d x"
  "parent (detach e d) x = (if x = e then None else parent d x)"
  "kids (detach e d) x = (if parent d e = Some x then removeAll e (kids d x) else kids d x)"
  by (auto simp: detach_def tag_of_def class_of_def parent_def kids_def split: option.splits)

lemma append_to_simps:
  "fresh (append_to p e d) = fresh d"
  "root (append_to p e d) = root d"
  "tag_of (append_to p e d) x = tag_of d x"
  "class_of (append_to p e d) x = class_of d x"
  "parent (append_to p e d) x = (if x = e then Some p else parent d x)"
  "kids (append_to p e d) x =
     (if x = p then kids (detach e d) p @ [e] else kids (detach e d) x)"
  using detach_simps[of e d]
  by (auto simp: append_to_def tag_of_def class_of_def parent_def kids_def)

lemma set_tag_simps:
  "fresh (set_tag e t d) = fresh d"
  "root (set_tag e t d) = root d"
  "tag_of (set_tag e t d) x = (if x = e then t else tag_of d x)"
  "class_of (set_tag e t d) x = class_of d x"
  "parent (set_tag e t d) x = parent d x"
  "kids (set_tag e t d) x = kids d x"
  by (auto simp: set_tag_def tag_of_def class_of_def parent_def kids_def)

lemma set_class_simps:
  "fresh (set_class e c d) = fresh d"
  "root (set_class e c d) = root d"
  "tag_of (set_class e c d) x = tag_of d x"
  "class_of (set_class e c d) x = (if x = e then Some c else class_of d x)"
  "parent (set_class e c d) x = parent d x"
  "kids (set_class e c d) x = kids d x"
  by (auto simp: set_class_def tag_of_def class_of_def parent_def kids_def)

lemma Element_attrs:
  "tag_of (snd (Element t d)) x = (if x = fresh d then t else tag_of d x)"
  "class_of (snd (Element t d)) x = (if x = fresh d then None else class_of d x)"
  "parent (snd (Element t d)) x = (if x = fresh d then None else parent d x)"
  "kids (snd (Element t d)) x = (if x = fresh d then [] else kids d x)"
  by (auto simp: Element_def tag_of_def class_of_def parent_def kids_def)


subsection \<open>One line of the loop\<close>

lemma py_strip_empty: "py_strip s = [] \<longleftrightarrow> (\<forall>c \<in> set s. py_isspace c)"
proof -
  have "py_strip s = [] \<longleftrightarrow> (\<forall>c \<in> set (dropWhile py_isspace s). py_isspace c)"
    by (simp add: py_strip_def dropWhile_eq_Nil_conv)
  also have "\<dots> \<longleftrightarrow> dropWhile py_isspace s = []"
  proof
    assume a: "\<forall>c \<in> set (dropWhile py_isspace s). py_isspace c"
    show "dropWhile py_isspace s = []"
    proof (rule ccontr)
      assume n: "dropWhile py_isspace s \<noteq> []"
      then have "\<not> py_isspace (hd (dropWhile py_isspace s))" by (rule hd_dropWhile)
      moreover have "hd (dropWhile py_isspace s) \<in> set (dropWhile py_isspace s)"
        using n by simp
      ultimately show False using a by blast
    qed
  next
    assume "dropWhile py_isspace s = []"
    then show "\<forall>c \<in> set (dropWhile py_isspace s). py_isspace c"
      by (auto dest: set_dropWhileD)
  qed
  finally show ?thesis by (simp add: dropWhile_eq_Nil_conv)
qed

lemma place_line_blank:
  assumes "py_strip txt = []" and "parent (s_dom s) l = Some p"
  shows "place_line l txt tag app s = Inr (s\<lparr>s_dom := detach l (s_dom s)\<rparr>)"
  using assms by (simp add: place_line_def remove_def then_do_def)

lemma place_line_new:
  assumes "py_strip txt \<noteq> []" and "\<not> app"
  shows "place_line l txt tag app s = Inr (s\<lparr>box := Some l, s_dom := set_tag l tag (s_dom s)\<rparr>)"
  using assms by (simp add: place_line_def)

lemma place_line_append:
  assumes "py_strip txt \<noteq> []" and "app" and "box s = Some b"
  shows "place_line l txt tag app s =
     Inr (s\<lparr>s_dom := append_to b l (append_to b (fresh (s_dom s)) (snd (Element ''br'' (s_dom s))))\<rparr>)"
  using assms by (simp add: place_line_def BR_def case_prod_unfold Element_simps Let_def)

lemma line_step_unfold:
  assumes "class_of (s_dom s) l = Some c"
    and "get_dimension dims (s_dom s) l ''h'' = Inr height"
    and "classn ''fs'' (s_dom s) l = Inr fs"
  shows "line_step dims h_levels bullets l s =
     then_do
       (place_line l (text_content (s_dom s) l)
          (fst (decide h_levels bullets s (look_of c) height (text_content (s_dom s) l) fs))
          (snd (decide h_levels bullets s (look_of c) height (text_content (s_dom s) l) fs)) s)
       (\<lambda>s'. Inr (s'\<lparr>p_space := (py_strip (text_content (s_dom s) l) = []),
                       p_height := height, p_look := Some (look_of c),
                       p_tag := Some (fst (decide h_levels bullets s (look_of c) height
                                         (text_content (s_dom s) l) fs))\<rparr>))"
  using assms by (simp add: line_step_def then_do_def Let_def)

text \<open>
  Claim C10. When the line is blank (and can be read and removed), the loop takes it
  out of the tree and leaves the box as it is, but the state it carries on is that of
  the blank line: its look, its height, the tag computed for it, and the mark that it
  was blank. So the next line's \<open>new_look\<close> compares with the look of the blank line and
  its \<open>margin\<close> with the height of the blank line.
\<close>

theorem blank_line_state_carried:
  assumes c: "class_of (s_dom s) l = Some c"
    and h: "get_dimension dims (s_dom s) l ''h'' = Inr height"
    and fs: "classn ''fs'' (s_dom s) l = Inr fs"
    and blank: "py_strip (text_content (s_dom s) l) = []"
    and par: "parent (s_dom s) l = Some p"
  shows "\<exists>s'. line_step dims h_levels bullets l s = Inr s' \<and>
     s_dom s' = detach l (s_dom s) \<and> box s' = box s \<and>
     p_look s' = Some (look_of c) \<and> p_height s' = height \<and> p_space s' = True \<and>
     p_tag s' =
       Some (fst (decide h_levels bullets s (look_of c) height (text_content (s_dom s) l) fs)) \<and>
     (\<forall>look2. new_look_of s' look2 = (look_of c \<noteq> look2)) \<and>
     (\<forall>height2. margin_of s' height2 = (MAX_LINE_HEIGHT < height - height2))"
proof -
  define ta where
    "ta = decide h_levels bullets s (look_of c) height (text_content (s_dom s) l) fs"
  define s' where
    "s' = s\<lparr>s_dom := detach l (s_dom s), p_space := True, p_height := height,
            p_look := Some (look_of c), p_tag := Some (fst ta)\<rparr>"
  have "line_step dims h_levels bullets l s = Inr s'"
    unfolding line_step_unfold[OF c h fs] ta_def[symmetric]
    by (simp add: place_line_blank[OF blank par] then_do_def s'_def blank)
  moreover have "s_dom s' = detach l (s_dom s)" "box s' = box s"
    "p_look s' = Some (look_of c)" "p_height s' = height" "p_space s' = True"
    "p_tag s' = Some (fst ta)"
    by (simp_all add: s'_def)
  moreover have "\<forall>look2. new_look_of s' look2 = (look_of c \<noteq> look2)"
    by (simp add: new_look_of_def s'_def)
  moreover have "\<forall>height2. margin_of s' height2 = (MAX_LINE_HEIGHT < height - height2)"
    by (simp add: margin_of_def s'_def)
  ultimately show ?thesis unfolding ta_def by blast
qed

text \<open>
  The theorem on \<open>doc_lines\<close>, after its first two lines: the third line (element 5) is
  blank, has another look and is 40 px high. The box stays the first line (element 3),
  and what the fourth line is compared with is the look and the height of the blank
  line.
\<close>

theorem blank_line_state_carried_witness:
  "\<exists>s. line_loop sizes Map.empty [] [3, 4] (initial_state (load doc_lines)) = Inr s \<and>
     box s = Some 3 \<and> p_look s = Some (look_of ''t m0 x1 h1 y2 ff1 fs0 fc1'') \<and>
     class_of (s_dom s) 5 = Some ''t m0 x2 h2 y3 ff2 fs1 fc0'' \<and>
     get_dimension sizes (s_dom s) 5 ''h'' = Inr 40 \<and>
     classn ''fs'' (s_dom s) 5 = Inr ''1'' \<and>
     py_strip (text_content (s_dom s) 5) = [] \<and>
     parent (s_dom s) 5 = Some 2 \<and>
     (\<exists>s'. line_step sizes Map.empty [] 5 s = Inr s' \<and>
        s_dom s' = detach 5 (s_dom s) \<and> box s' = Some 3 \<and>
        p_look s' = Some (look_of ''t m0 x2 h2 y3 ff2 fs1 fc0'') \<and> p_height s' = 40 \<and>
        p_space s' = True \<and>
        new_look_of s' (look_of ''t m0 x1 h1 y3 ff1 fs0 fc0'') =
          (look_of ''t m0 x2 h2 y3 ff2 fs1 fc0'' \<noteq> look_of ''t m0 x1 h1 y3 ff1 fs0 fc0'') \<and>
        margin_of s' 12 = (MAX_LINE_HEIGHT < 40 - 12))"
proof -
  let ?c = "''t m0 x2 h2 y3 ff2 fs1 fc0''"
  have e: "case line_loop sizes Map.empty [] [3, 4] (initial_state (load doc_lines)) of
      Inl err \<Rightarrow> False
    | Inr s \<Rightarrow>
        box s = Some 3 \<and> p_look s = Some (look_of ''t m0 x1 h1 y2 ff1 fs0 fc1'') \<and>
        class_of (s_dom s) 5 = Some ?c \<and> get_dimension sizes (s_dom s) 5 ''h'' = Inr 40 \<and>
        classn ''fs'' (s_dom s) 5 = Inr ''1'' \<and> py_strip (text_content (s_dom s) 5) = [] \<and>
        parent (s_dom s) 5 = Some 2"
    by code_simp
  then obtain s where s: "line_loop sizes Map.empty [] [3, 4] (initial_state (load doc_lines)) = Inr s"
    and b: "box s = Some 3" and pl: "p_look s = Some (look_of ''t m0 x1 h1 y2 ff1 fs0 fc1'')"
    and c: "class_of (s_dom s) 5 = Some ?c"
    and h: "get_dimension sizes (s_dom s) 5 ''h'' = Inr 40"
    and fs: "classn ''fs'' (s_dom s) 5 = Inr ''1''"
    and blank: "py_strip (text_content (s_dom s) 5) = []"
    and par: "parent (s_dom s) 5 = Some 2"
    by (cases "line_loop sizes Map.empty [] [3, 4] (initial_state (load doc_lines))") simp_all
  from blank_line_state_carried[OF c h fs blank par, of Map.empty "[]"] b
  have "\<exists>s'. line_step sizes Map.empty [] 5 s = Inr s' \<and>
        s_dom s' = detach 5 (s_dom s) \<and> box s' = Some 3 \<and>
        p_look s' = Some (look_of ?c) \<and> p_height s' = 40 \<and> p_space s' = True \<and>
        new_look_of s' (look_of ''t m0 x1 h1 y3 ff1 fs0 fc0'') =
          (look_of ?c \<noteq> look_of ''t m0 x1 h1 y3 ff1 fs0 fc0'') \<and>
        margin_of s' 12 = (MAX_LINE_HEIGHT < 40 - 12)"
    by auto
  then show ?thesis using s b pl c h fs blank par by blast
qed

lemma default_append_iff:
  "default_append new_look prev_space margin \<longleftrightarrow> \<not> new_look \<and> \<not> prev_space \<and> \<not> margin"
  by (auto simp: default_append_def)

lemma decide_plain:
  assumes "\<not> list_ex (\<lambda>b. prefix b txt) bullets"
    and "\<not> (\<not> py_in ''x0'' look \<and> p_tag s = Some ''li'')"
    and "h_levels fs = None"
  shows "decide h_levels bullets s look height txt fs =
     (''p'', \<not> new_look_of s look \<and> \<not> p_space s \<and> \<not> margin_of s height)"
  using assms
  by (simp add: decide_def heading_rule_def list_rule_def default_append_iff Let_def)

lemma place_line_fields:
  assumes "place_line l txt tag app s = Inr s'"
  shows "p_look s' = p_look s \<and> p_height s' = p_height s \<and> p_space s' = p_space s \<and>
     p_tag s' = p_tag s \<and> (py_strip txt \<noteq> [] \<longrightarrow> box s' \<noteq> None) \<and>
     (py_strip txt = [] \<longrightarrow> box s' = box s)"
proof (cases "py_strip txt = []")
  case True
  then show ?thesis using assms
    by (auto simp: place_line_def then_do_def split: sum.splits)
next
  case False
  show ?thesis
  proof (cases app)
    case True
    then show ?thesis using assms False
      by (auto simp: place_line_def Let_def case_prod_unfold split: option.splits if_splits)
  next
    case False
    then show ?thesis using assms \<open>py_strip txt \<noteq> []\<close>
      by (auto simp: place_line_def)
  qed
qed

lemma line_step_state:
  assumes step: "line_step dims h_levels bullets l s = Inr s'"
    and c: "class_of (s_dom s) l = Some c"
    and h: "get_dimension dims (s_dom s) l ''h'' = Inr height"
  shows "p_look s' = Some (look_of c) \<and> p_height s' = height \<and>
     p_space s' = (py_strip (text_content (s_dom s) l) = []) \<and>
     (py_strip (text_content (s_dom s) l) \<noteq> [] \<longrightarrow> box s' \<noteq> None)"
proof (cases "classn ''fs'' (s_dom s) l")
  case (Inl err)
  then show ?thesis using step c h by (simp add: line_step_def then_do_def)
next
  case (Inr fs)
  define tx where "tx = text_content (s_dom s) l"
  define ta where "ta = decide h_levels bullets s (look_of c) height tx fs"
  have eq: "then_do (place_line l tx (fst ta) (snd ta) s)
       (\<lambda>s'. Inr (s'\<lparr>p_space := (py_strip tx = []), p_height := height,
                       p_look := Some (look_of c), p_tag := Some (fst ta)\<rparr>)) = Inr s'"
    using step unfolding line_step_unfold[OF c h Inr] tx_def ta_def by simp
  then obtain s1 where s1: "place_line l tx (fst ta) (snd ta) s = Inr s1"
    and s': "s' = s1\<lparr>p_space := (py_strip tx = []), p_height := height,
                      p_look := Some (look_of c), p_tag := Some (fst ta)\<rparr>"
    by (cases "place_line l tx (fst ta) (snd ta) s") (auto simp: then_do_def)
  show ?thesis using place_line_fields[OF s1] s' by (simp add: tx_def)
qed

text \<open>
  Claim C2, as amended. Take a line \<open>l1\<close> that the loop has just processed and the next
  line \<open>l2\<close>, which is not blank, starts with no bullet, is not the continuation of a
  list item (it is not indented, or the tag before it is not \<open>li\<close>) and whose font-size
  class is no heading. Then \<open>l2\<close> is appended if and only if its look is that of
  \<open>l1\<close>, \<open>l1\<close> was not blank, and the height of \<open>l1\<close> minus that of \<open>l2\<close> is at most
  18. If so, a \<open>br\<close> and then \<open>l2\<close> become the last children of the box and the box
  stays; if any of the three fails, \<open>l2\<close> becomes a \<open>p\<close> and the new box, where it
  stands.
\<close>

theorem block_continuation:
  assumes first: "line_step dims h_levels bullets l1 s0 = Inr s1"
    and c1: "class_of (s_dom s0) l1 = Some c1"
    and h1: "get_dimension dims (s_dom s0) l1 ''h'' = Inr h1"
    and c2: "class_of (s_dom s1) l2 = Some c2"
    and h2: "get_dimension dims (s_dom s1) l2 ''h'' = Inr h2"
    and fs2: "classn ''fs'' (s_dom s1) l2 = Inr fs2"
    and t2: "py_strip (text_content (s_dom s1) l2) \<noteq> []"
    and nb: "\<not> list_ex (\<lambda>b. prefix b (text_content (s_dom s1) l2)) bullets"
    and nl: "\<not> (\<not> py_in ''x0'' (look_of c2) \<and> p_tag s1 = Some ''li'')"
    and nh: "h_levels fs2 = None"
    and ex: "l2 < fresh (s_dom s1)"
  shows "\<exists>s2. line_step dims h_levels bullets l2 s1 = Inr s2 \<and>
     (snd (decide h_levels bullets s1 (look_of c2) h2 (text_content (s_dom s1) l2) fs2) \<longleftrightarrow>
        look_of c2 = look_of c1 \<and> py_strip (text_content (s_dom s0) l1) \<noteq> [] \<and>
        h1 - h2 \<le> MAX_LINE_HEIGHT) \<and>
     (if look_of c2 = look_of c1 \<and> py_strip (text_content (s_dom s0) l1) \<noteq> [] \<and>
         h1 - h2 \<le> MAX_LINE_HEIGHT
      then \<exists>b. box s1 = Some b \<and> box s2 = Some b \<and> parent (s_dom s2) l2 = Some b \<and>
             (\<exists>ks. kids (s_dom s2) b = ks @ [fresh (s_dom s1), l2]) \<and>
             tag_of (s_dom s2) (fresh (s_dom s1)) = ''br'' \<and>
             tag_of (s_dom s2) l2 = tag_of (s_dom s1) l2
      else box s2 = Some l2 \<and> tag_of (s_dom s2) l2 = ''p'' \<and>
           parent (s_dom s2) l2 = parent (s_dom s1) l2 \<and>
           kids (s_dom s2) = kids (s_dom s1))"
proof -
  define tx where "tx = text_content (s_dom s1) l2"
  define merge where
    "merge \<longleftrightarrow> look_of c2 = look_of c1 \<and> py_strip (text_content (s_dom s0) l1) \<noteq> [] \<and>
       h1 - h2 \<le> MAX_LINE_HEIGHT"
  define d where "d = s_dom s1"
  note st = line_step_state[OF first c1 h1]
  have dec: "decide h_levels bullets s1 (look_of c2) h2 tx fs2 = (''p'', merge)"
    unfolding decide_plain[of tx bullets "look_of c2" s1 h_levels fs2 h2,
        OF nb[folded tx_def] nl nh] merge_def
    using st by (auto simp: new_look_of_def margin_of_def)
  have unf: "line_step dims h_levels bullets l2 s1 =
     then_do (place_line l2 tx ''p'' merge s1)
       (\<lambda>s'. Inr (s'\<lparr>p_space := False, p_height := h2, p_look := Some (look_of c2),
                       p_tag := Some ''p''\<rparr>))"
    unfolding line_step_unfold[OF c2 h2 fs2] tx_def[symmetric] dec using t2
    by (simp add: tx_def)
  have t2': "py_strip tx \<noteq> []" using t2 by (simp add: tx_def)
  show ?thesis
  proof (cases merge)
    case True
    then have "py_strip (text_content (s_dom s0) l1) \<noteq> []" by (simp add: merge_def)
    then obtain b where b: "box s1 = Some b" using st by auto
    define br where "br = fresh d"
    define d1 where "d1 = append_to b br (snd (Element ''br'' d))"
    define d2 where "d2 = append_to b l2 d1"
    define s2 where "s2 = s1\<lparr>s_dom := d2, p_space := False, p_height := h2,
        p_look := Some (look_of c2), p_tag := Some ''p''\<rparr>"
    have step: "line_step dims h_levels bullets l2 s1 = Inr s2"
      unfolding unf place_line_append[OF t2' True b]
      by (simp add: then_do_def s2_def d2_def d1_def br_def d_def)
    have ne: "l2 \<noteq> br" using ex by (simp add: br_def d_def)
    have k1: "kids d1 b = kids (snd (Element ''br'' d)) b @ [br]"
      by (simp add: d1_def append_to_simps detach_simps Element_attrs br_def)
    have k2: "\<exists>ks. kids d2 b = ks @ [br, l2]"
      using ne by (simp add: d2_def append_to_simps detach_simps k1)
    have p2: "parent d2 l2 = Some b" by (simp add: d2_def append_to_simps)
    have tb: "tag_of d2 br = ''br''"
      by (simp add: d2_def d1_def append_to_simps Element_attrs br_def)
    have tl: "tag_of d2 l2 = tag_of d l2"
      using ne by (simp add: d2_def d1_def append_to_simps Element_attrs br_def)
    have "box s2 = Some b" "s_dom s2 = d2" using b by (simp_all add: s2_def)
    then show ?thesis
      using step True b k2 p2 tb tl dec
      unfolding merge_def[symmetric] tx_def[symmetric] br_def d_def
      by (intro exI[of _ s2]) simp
  next
    case False
    define s2 where "s2 = s1\<lparr>box := Some l2, s_dom := set_tag l2 ''p'' d, p_space := False,
        p_height := h2, p_look := Some (look_of c2), p_tag := Some ''p''\<rparr>"
    have step: "line_step dims h_levels bullets l2 s1 = Inr s2"
      unfolding unf place_line_new[OF t2' False]
      by (simp add: then_do_def s2_def d_def)
    have "box s2 = Some l2" "tag_of (s_dom s2) l2 = ''p''"
      "parent (s_dom s2) l2 = parent d l2" "kids (s_dom s2) = kids d"
      by (simp_all add: s2_def set_tag_simps fun_eq_iff)
    then show ?thesis
      using step False dec
      unfolding merge_def[symmetric] tx_def[symmetric] d_def
      by (intro exI[of _ s2]) simp
  qed
qed

text \<open>
  Claim C2 as stated fails on \<open>doc_title\<close>: the two lines of the title have the same
  look and the same height, neither is blank or starts with a bullet, and yet each
  becomes a heading of its own, because their font-size class has a heading level.
\<close>

theorem adjacent_heading_lines_split:
  "look_of ''t m0 x1 h2 y1 ff1 fs2 fc0'' = look_of ''t m0 x1 h2 y2 ff1 fs2 fc0'' \<and>
   map_sum id dump (semanticize sizes [] (load doc_title)) =
     Inr (document
       [page ''1''
          [El ''h1'' (Some ''t m0 x1 h2 y1 ff1 fs2 fc0'') (Some ''Annual'') [] None,
           El ''h1'' (Some ''t m0 x1 h2 y2 ff1 fs2 fc0'') (Some ''Report'') [] None,
           El ''p'' (Some ''t m0 x1 h1 y3 ff1 fs0 fc0'') (Some ''Body one'')
             [El ''br'' None None [] None,
              line ''t m0 x1 h1 y3 ff1 fs0 fc0'' ''Body two'',
              El ''br'' None None [] None,
              line ''t m0 x1 h1 y3 ff1 fs0 fc0'' ''Body three''] None]])"
  by code_simp

text \<open>The theorem on the first two lines of \<open>doc_lines\<close>, which merge.\<close>

theorem block_continuation_witness:
  "\<exists>s1. line_step sizes Map.empty [] 3 (initial_state (load doc_lines)) = Inr s1 \<and>
     class_of (s_dom (initial_state (load doc_lines))) 3 = Some ''t m0 x1 h1 y1 ff1 fs0 fc0'' \<and>
     get_dimension sizes (s_dom (initial_state (load doc_lines))) 3 ''h'' = Inr 12 \<and>
     class_of (s_dom s1) 4 = Some ''t m0 x1 h1 y2 ff1 fs0 fc1'' \<and>
     get_dimension sizes (s_dom s1) 4 ''h'' = Inr 12 \<and>
     classn ''fs'' (s_dom s1) 4 = Inr ''0'' \<and>
     py_strip (text_content (s_dom s1) 4) \<noteq> [] \<and>
     4 < fresh (s_dom s1) \<and>
     (\<exists>s2. line_step sizes Map.empty [] 4 s1 = Inr s2 \<and>
        box s1 = Some 3 \<and> box s2 = Some 3 \<and> parent (s_dom s2) 4 = Some 3 \<and>
        (\<exists>ks. kids (s_dom s2) 3 = ks @ [fresh (s_dom s1), 4]) \<and>
        tag_of (s_dom s2) (fresh (s_dom s1)) = ''br'')"
proof -
  let ?s0 = "initial_state (load doc_lines)"
  let ?c1 = "''t m0 x1 h1 y1 ff1 fs0 fc0''"
  let ?c2 = "''t m0 x1 h1 y2 ff1 fs0 fc1''"
  have e: "case line_step sizes Map.empty [] 3 ?s0 of
      Inl err \<Rightarrow> False
    | Inr s1 \<Rightarrow>
        class_of (s_dom s1) 4 = Some ?c2 \<and> get_dimension sizes (s_dom s1) 4 ''h'' = Inr 12 \<and>
        classn ''fs'' (s_dom s1) 4 = Inr ''0'' \<and> py_strip (text_content (s_dom s1) 4) \<noteq> [] \<and>
        \<not> list_ex (\<lambda>b. prefix b (text_content (s_dom s1) 4)) [] \<and>
        \<not> (\<not> py_in ''x0'' (look_of ?c2) \<and> p_tag s1 = Some ''li'') \<and>
        4 < fresh (s_dom s1) \<and> box s1 = Some 3"
    by code_simp
  then obtain s1 where first: "line_step sizes Map.empty [] 3 ?s0 = Inr s1"
    and c2: "class_of (s_dom s1) 4 = Some ?c2"
    and h2: "get_dimension sizes (s_dom s1) 4 ''h'' = Inr 12"
    and fs2: "classn ''fs'' (s_dom s1) 4 = Inr ''0''"
    and t2: "py_strip (text_content (s_dom s1) 4) \<noteq> []"
    and nb: "\<not> list_ex (\<lambda>b. prefix b (text_content (s_dom s1) 4)) []"
    and nl: "\<not> (\<not> py_in ''x0'' (look_of ?c2) \<and> p_tag s1 = Some ''li'')"
    and ex: "4 < fresh (s_dom s1)" and b1: "box s1 = Some 3"
    by (cases "line_step sizes Map.empty [] 3 ?s0") simp_all
  have c1: "class_of (s_dom ?s0) 3 = Some ?c1" by code_simp
  have h1: "get_dimension sizes (s_dom ?s0) 3 ''h'' = Inr 12" by code_simp
  have cond: "look_of ?c2 = look_of ?c1 \<and> py_strip (text_content (s_dom ?s0) 3) \<noteq> [] \<and>
      (12 :: int) - 12 \<le> MAX_LINE_HEIGHT"
    by code_simp
  have nh: "Map.empty ''0'' = (None :: nat option)" by simp
  from block_continuation[OF first c1 h1 c2 h2 fs2 t2 nb nl nh ex] cond b1
  have "\<exists>s2. line_step sizes Map.empty [] 4 s1 = Inr s2 \<and>
        box s2 = Some 3 \<and> parent (s_dom s2) 4 = Some 3 \<and>
        (\<exists>ks. kids (s_dom s2) 3 = ks @ [fresh (s_dom s1), 4]) \<and>
        tag_of (s_dom s2) (fresh (s_dom s1)) = ''br''"
    by auto
  then show ?thesis using first c1 h1 c2 h2 fs2 t2 ex b1 by blast
qed

subsection \<open>The loop over the lines\<close>

lemma classn_class_of:
  "class_of d' e = class_of d e \<Longrightarrow> classn k d' e = classn k d e"
  by (simp add: classn_def)

lemma classn_Inr_class:
  "classn k d e = Inr v \<Longrightarrow> \<exists>c. class_of d e = Some c"
  by (cases "class_of d e") (simp_all add: classn_def)

lemma decide_no_append:
  assumes "p_tag s \<noteq> Some ''li''" and "p_look s = None \<or> p_space s"
  shows "\<not> snd (decide h_levels bullets s look height tx fs)"
proof -
  have "\<not> default_append (new_look_of s look) (p_space s) (margin_of s height)"
    using assms(2) by (auto simp: default_append_iff new_look_of_def)
  then show ?thesis using assms(1)
    by (simp add: decide_def heading_rule_def list_rule_def Let_def split: option.splits)
qed

lemma bullet_not_blank:
  assumes "\<forall>b \<in> set bullets. \<exists>c \<in> set b. \<not> py_isspace c" and "py_strip tx = []"
  shows "\<not> list_ex (\<lambda>b. prefix b tx) bullets"
proof
  assume "list_ex (\<lambda>b. prefix b tx) bullets"
  then obtain b where b: "b \<in> set bullets" "prefix b tx" by (auto simp: list_ex_iff)
  then obtain c where c: "c \<in> set b" "\<not> py_isspace c" using assms(1) by blast
  have "c \<in> set tx" using b(2) c(1) by (auto simp: prefix_def)
  then show False using assms(2) c(2) by (simp add: py_strip_empty)
qed

lemma decide_blank_not_li:
  assumes "\<forall>b \<in> set bullets. \<exists>c \<in> set b. \<not> py_isspace c" and "py_strip tx = []"
    and "p_tag s \<noteq> Some ''li''"
  shows "fst (decide h_levels bullets s look height tx fs) \<noteq> ''li''"
  using bullet_not_blank[OF assms(1,2)] assms(3)
  by (simp add: decide_def heading_rule_def list_rule_def Let_def split: option.splits)

lemma line_step_total:
  assumes bul: "\<forall>b \<in> set bullets. \<exists>c \<in> set b. \<not> py_isspace c"
    and inv: "box s = None \<longrightarrow> p_tag s \<noteq> Some ''li'' \<and> (p_look s = None \<or> p_space s)"
    and h: "classn ''h'' (s_dom s) l = Inr hn"
    and fs: "classn ''fs'' (s_dom s) l = Inr fs"
    and par: "parent (s_dom s) l = Some p"
  shows "\<exists>s'. line_step dims h_levels bullets l s = Inr s' \<and>
     (box s' = None \<longrightarrow> p_tag s' \<noteq> Some ''li'' \<and> (p_look s' = None \<or> p_space s')) \<and>
     fresh (s_dom s) \<le> fresh (s_dom s') \<and>
     (\<forall>x < fresh (s_dom s).
        class_of (s_dom s') x = class_of (s_dom s) x \<and>
        (x \<noteq> l \<longrightarrow> parent (s_dom s') x = parent (s_dom s) x))"
proof -
  obtain c where c: "class_of (s_dom s) l = Some c" using classn_Inr_class[OF h] by blast
  define height where "height = get_or_0 (dims ''h'') hn"
  have hh: "get_dimension dims (s_dom s) l ''h'' = Inr height"
    using h by (simp add: get_dimension_def then_do_def height_def)
  define tx where "tx = text_content (s_dom s) l"
  define ta where "ta = decide h_levels bullets s (look_of c) height tx fs"
  define d where "d = s_dom s"
  have unf: "line_step dims h_levels bullets l s =
     then_do (place_line l tx (fst ta) (snd ta) s)
       (\<lambda>s'. Inr (s'\<lparr>p_space := (py_strip tx = []), p_height := height,
                       p_look := Some (look_of c), p_tag := Some (fst ta)\<rparr>))"
    unfolding line_step_unfold[OF c hh fs] tx_def ta_def by simp
  show ?thesis
  proof (cases "py_strip tx = []")
    case True
    have nli: "box s = None \<longrightarrow> fst ta \<noteq> ''li''"
      using decide_blank_not_li[OF bul True] inv unfolding ta_def by blast
    show ?thesis
      unfolding unf place_line_blank[OF True par[folded d_def, unfolded d_def]]
      using nli True
      by (simp add: then_do_def detach_simps)
  next
    case False
    show ?thesis
    proof (cases "snd ta")
      case True
      have "box s \<noteq> None"
        using decide_no_append[of s h_levels bullets "look_of c" height tx fs] inv True
        unfolding ta_def by blast
      then obtain b where b: "box s = Some b" by auto
      show ?thesis
        unfolding unf place_line_append[OF False True b]
        using b by (simp add: then_do_def append_to_simps Element_attrs Element_simps)
    next
      case nf: False
      show ?thesis
        unfolding unf place_line_new[OF False nf]
        by (simp add: then_do_def set_tag_simps)
    qed
  qed
qed

lemma line_loop_total:
  assumes bul: "\<forall>b \<in> set bullets. \<exists>c \<in> set b. \<not> py_isspace c"
  shows "distinct ls \<Longrightarrow>
    (box s = None \<longrightarrow> p_tag s \<noteq> Some ''li'' \<and> (p_look s = None \<or> p_space s)) \<Longrightarrow>
    (\<forall>l \<in> set ls. l < fresh (s_dom s) \<and> (\<exists>p. parent (s_dom s) l = Some p) \<and>
        (\<exists>v. classn ''h'' (s_dom s) l = Inr v) \<and> (\<exists>v. classn ''fs'' (s_dom s) l = Inr v)) \<Longrightarrow>
    \<exists>s'. line_loop dims h_levels bullets ls s = Inr s'"
proof (induction ls arbitrary: s)
  case Nil
  then show ?case by (simp add: line_loop_def)
next
  case (Cons l ls)
  from Cons.prems(3) obtain p hn fs where
    l: "l < fresh (s_dom s)" "parent (s_dom s) l = Some p"
       "classn ''h'' (s_dom s) l = Inr hn" "classn ''fs'' (s_dom s) l = Inr fs"
    by auto
  from line_step_total[OF bul Cons.prems(2) l(3) l(4) l(2), of dims h_levels]
  obtain s1 where s1: "line_step dims h_levels bullets l s = Inr s1"
    and inv1: "box s1 = None \<longrightarrow> p_tag s1 \<noteq> Some ''li'' \<and> (p_look s1 = None \<or> p_space s1)"
    and fr: "fresh (s_dom s) \<le> fresh (s_dom s1)"
    and frame: "\<forall>x < fresh (s_dom s).
        class_of (s_dom s1) x = class_of (s_dom s) x \<and>
        (x \<noteq> l \<longrightarrow> parent (s_dom s1) x = parent (s_dom s) x)"
    by (elim exE conjE) (rule that, assumption+)
  have rest: "\<forall>k \<in> set ls. k < fresh (s_dom s1) \<and> (\<exists>p. parent (s_dom s1) k = Some p) \<and>
        (\<exists>v. classn ''h'' (s_dom s1) k = Inr v) \<and> (\<exists>v. classn ''fs'' (s_dom s1) k = Inr v)"
  proof
    fix k assume k: "k \<in> set ls"
    then have kl: "k \<noteq> l" using Cons.prems(1) by auto
    have kf: "k < fresh (s_dom s)" using Cons.prems(3) k by simp
    have cl: "class_of (s_dom s1) k = class_of (s_dom s) k"
      and pa: "parent (s_dom s1) k = parent (s_dom s) k"
      using frame kf kl by auto
    show "k < fresh (s_dom s1) \<and> (\<exists>p. parent (s_dom s1) k = Some p) \<and>
        (\<exists>v. classn ''h'' (s_dom s1) k = Inr v) \<and> (\<exists>v. classn ''fs'' (s_dom s1) k = Inr v)"
    proof -
      have a: "(\<exists>p. parent (s_dom s) k = Some p) \<and>
        (\<exists>v. classn ''h'' (s_dom s) k = Inr v) \<and> (\<exists>v. classn ''fs'' (s_dom s) k = Inr v)"
        using Cons.prems(3) k by simp
      have "k < fresh (s_dom s1)" using kf fr by simp
      then show ?thesis using a pa classn_class_of[OF cl] by simp
    qed
  qed
  have "distinct ls" using Cons.prems(1) by simp
  from Cons.IH[OF this inv1 rest]
  obtain s' where "line_loop dims h_levels bullets ls s1 = Inr s'" by blast
  then show ?case using s1 by (simp add: line_loop_def then_do_def)
qed

text \<open>
  Claim C9, as amended. The loop over the lines raises nothing when every bullet marker
  has a character that is not white space, the lines are different elements of the
  document, each with a parent, and the class attribute of each line has a height class
  and a font-size class that \<open>classn\<close> can cut out. A class number that the style sheet
  does not hold gives the dimension 0.
\<close>

theorem line_loop_no_exception:
  assumes bul: "\<forall>b \<in> set bullets. \<exists>c \<in> set b. \<not> py_isspace c"
    and dist: "distinct ls"
    and lines: "\<forall>l \<in> set ls. l < fresh d \<and> (\<exists>p. parent d l = Some p) \<and>
        (\<exists>v. classn ''h'' d l = Inr v) \<and> (\<exists>v. classn ''fs'' d l = Inr v)"
  shows "(\<exists>s'. line_loop dims h_levels bullets ls (initial_state d) = Inr s') \<and>
     (\<forall>e k n. classn k d e = Inr n \<and> map_of (dims k) n = None \<longrightarrow>
        get_dimension dims d e k = Inr 0)"
proof -
  have "\<exists>s'. line_loop dims h_levels bullets ls (initial_state d) = Inr s'"
    using lines by (intro line_loop_total[OF bul dist]) (simp_all add: initial_state_def)
  moreover have "\<forall>e k n. classn k d e = Inr n \<and> map_of (dims k) n = None \<longrightarrow>
        get_dimension dims d e k = Inr 0"
    by (simp add: get_dimension_def then_do_def get_or_0_def)
  ultimately show ?thesis by blast
qed

text \<open>
  Claim C9 as stated fails on \<open>doc_no_height\<close>: its one line has no height class, and
  the loop ends with the IndexError that \<open>classn\<close> raises.
\<close>

theorem missing_height_class_raises:
  "cssselect_class (load doc_no_height) (root (load doc_no_height)) ''t'' = [3] \<and>
   class_of (load doc_no_height) 3 = Some ''t m0 x1 y1 ff1 fs0 fc0'' \<and>
   map_sum id dump
     (then_do
        (line_loop sizes Map.empty []
           (cssselect_class (load doc_no_height) (root (load doc_no_height)) ''t'')
           (initial_state (load doc_no_height)))
        (\<lambda>s. Inr (s_dom s))) = Inl IndexError"
  by code_simp

text \<open>
  The theorem on the five lines of \<open>doc_lines\<close>; the last has the height class 9, which
  the style sheet does not hold.
\<close>

theorem line_loop_no_exception_witness:
  "(\<exists>c \<in> set ''*''. \<not> py_isspace c) \<and>
   cssselect_class (load doc_lines) (root (load doc_lines)) ''t'' = [3, 4, 5, 6, 7] \<and>
   (\<exists>s'. line_loop sizes Map.empty [''*'']
      (cssselect_class (load doc_lines) (root (load doc_lines)) ''t'')
      (initial_state (load doc_lines)) = Inr s') \<and>
   classn ''h'' (load doc_lines) 7 = Inr ''9'' \<and> map_of (sizes ''h'') ''9'' = None \<and>
   get_dimension sizes (load doc_lines) 7 ''h'' = Inr 0"
proof -
  let ?d = "load doc_lines"
  have bul: "\<forall>b \<in> set [''*'']. \<exists>c \<in> set b. \<not> py_isspace c" by code_simp
  have ls: "cssselect_class ?d (root ?d) ''t'' = [3, 4, 5, 6, 7]" by code_simp
  have dist: "distinct (cssselect_class ?d (root ?d) ''t'')" unfolding ls by simp
  have fr: "fresh ?d = 8" by code_simp
  have p: "parent ?d 3 = Some 2" "parent ?d 4 = Some 2" "parent ?d 5 = Some 2"
    "parent ?d 6 = Some 2" "parent ?d 7 = Some 2"
    by code_simp+
  have h: "classn ''h'' ?d 3 = Inr ''1''" "classn ''h'' ?d 4 = Inr ''1''"
    "classn ''h'' ?d 5 = Inr ''2''" "classn ''h'' ?d 6 = Inr ''1''"
    "classn ''h'' ?d 7 = Inr ''9''"
    by code_simp+
  have f: "classn ''fs'' ?d 3 = Inr ''0''" "classn ''fs'' ?d 4 = Inr ''0''"
    "classn ''fs'' ?d 5 = Inr ''1''" "classn ''fs'' ?d 6 = Inr ''0''"
    "classn ''fs'' ?d 7 = Inr ''0''"
    by code_simp+
  have lines: "\<forall>l \<in> set (cssselect_class ?d (root ?d) ''t''). l < fresh ?d \<and>
      (\<exists>p. parent ?d l = Some p) \<and> (\<exists>v. classn ''h'' ?d l = Inr v) \<and>
      (\<exists>v. classn ''fs'' ?d l = Inr v)"
    unfolding ls fr using p h f by simp
  have m: "map_of (sizes ''h'') ''9'' = None" by code_simp
  note t = line_loop_no_exception[OF bul dist lines, of sizes Map.empty]
  have a: "\<exists>s'. line_loop sizes Map.empty [''*''] (cssselect_class ?d (root ?d) ''t'')
      (initial_state ?d) = Inr s'"
    using t by blast
  have z: "get_dimension sizes ?d 7 ''h'' = Inr 0" using t h(5) m by blast
  have b1: "\<exists>c \<in> set ''*''. \<not> py_isspace c" using bul by simp
  show ?thesis using b1 ls a h(5) m z by blast
qed

end
